theory Spec2Isabelle
  imports Main "HOL-Library.AList"
begin

section \<open>Python built-ins used by merge\_datasets.py\<close>

text \<open>
  Text is a list of 8-bit characters: a decoded text is held as its UTF-8 bytes. The
  label and descriptor formats of the tool are ASCII (\<^verbatim>\<open><class_id> <x> <y> <w> <h>\<close>,
  \<^verbatim>\<open>nc: 2\<close>), and on ASCII text the functions below are Python's \<^verbatim>\<open>str.isspace\<close>,
  \<^verbatim>\<open>str.strip\<close>, \<^verbatim>\<open>str.split\<close>, \<^verbatim>\<open>str.join\<close>, \<^verbatim>\<open>str.lower\<close>, \<^verbatim>\<open>int\<close>,
  \<^verbatim>\<open>str\<close> and \<^verbatim>\<open>repr\<close>. Python's further whitespace, digit and letter characters
  beyond ASCII, and the interpreter's limit on the number of digits \<^verbatim>\<open>int\<close> accepts,
  are outside the model.
\<close>

definition isspace :: "char \<Rightarrow> bool" where
  "isspace c = (c \<in> set [CHR 0x09, CHR 0x0A, CHR 0x0B, CHR 0x0C, CHR 0x0D,
                         CHR 0x1C, CHR 0x1D, CHR 0x1E, CHR 0x1F, CHR 0x20])"

text \<open>\<^verbatim>\<open>s.strip()\<close> and \<^verbatim>\<open>s.strip(chars)\<close>.\<close>

definition strip :: "string \<Rightarrow> string" where
  "strip s = rev (dropWhile isspace (rev (dropWhile isspace s)))"

definition strip_chars :: "string \<Rightarrow> string \<Rightarrow> string" where
  "strip_chars chars s =
     rev (dropWhile (\<lambda>c. c \<in> set chars) (rev (dropWhile (\<lambda>c. c \<in> set chars) s)))"

text \<open>\<^verbatim>\<open>s.split()\<close>: the maximal runs of non-whitespace characters.\<close>

fun split_acc :: "string \<Rightarrow> string \<Rightarrow> string list" where
  "split_acc cur [] = (if cur = [] then [] else [cur])"
| "split_acc cur (c # cs) =
     (if isspace c then (if cur = [] then split_acc [] cs else cur # split_acc [] cs)
      else split_acc (cur @ [c]) cs)"

definition split_ws :: "string \<Rightarrow> string list" where
  "split_ws s = split_acc [] s"

text \<open>\<^verbatim>\<open>s.split(sep)\<close> for a one-character separator: empty fields are kept.\<close>

fun split_on :: "char \<Rightarrow> string \<Rightarrow> string list" where
  "split_on sep [] = [[]]"
| "split_on sep (c # cs) =
     (if c = sep then [] # split_on sep cs
      else (case split_on sep cs of [] \<Rightarrow> [[c]] | r # rs \<Rightarrow> (c # r) # rs))"

text \<open>\<^verbatim>\<open>sep.join(xs)\<close>.\<close>

fun join :: "string \<Rightarrow> string list \<Rightarrow> string" where
  "join sep [] = []"
| "join sep [x] = x"
| "join sep (x # y # ys) = x @ sep @ join sep (y # ys)"

definition startswith :: "string \<Rightarrow> string \<Rightarrow> bool" where
  "startswith s p = (take (length p) s = p)"

definition endswith :: "string \<Rightarrow> string \<Rightarrow> bool" where
  "endswith s p = (length p \<le> length s \<and> drop (length s - length p) s = p)"

definition lower_char :: "char \<Rightarrow> char" where
  "lower_char c =
     (if 65 \<le> (of_char c :: nat) \<and> (of_char c :: nat) \<le> 90
      then char_of ((of_char c :: nat) + 32) else c)"

definition lower :: "string \<Rightarrow> string" where
  "lower s = map lower_char s"

text \<open>\<^verbatim>\<open>str(n)\<close> for an integer: its decimal digits, with a minus sign when negative.\<close>

definition digit_char :: "nat \<Rightarrow> char" where
  "digit_char d = ''0123456789'' ! d"

fun str_nat :: "nat \<Rightarrow> string" where
  "str_nat n =
     (if n < 10 then [digit_char n] else str_nat (n div 10) @ [digit_char (n mod 10)])"

declare str_nat.simps [simp del]

definition str_int :: "int \<Rightarrow> string" where
  "str_int i = (if i < 0 then CHR ''-'' # str_nat (nat (- i)) else str_nat (nat i))"

text \<open>
  \<^verbatim>\<open>int(s)\<close>: surrounding whitespace is ignored, then an optional sign and decimal
  digits, where single underscores may stand between digits. \<open>None\<close> is the
  \<^verbatim>\<open>ValueError\<close>.
\<close>

definition isdigit :: "char \<Rightarrow> bool" where
  "isdigit c = (c \<in> set ''0123456789'')"

definition digit_val :: "char \<Rightarrow> nat" where
  "digit_val c = (of_char c :: nat) - 48"

fun parse_digits :: "nat \<Rightarrow> bool \<Rightarrow> string \<Rightarrow> nat option" where
  "parse_digits acc prev [] = (if prev then Some acc else None)"
| "parse_digits acc prev (c # cs) =
     (if isdigit c then parse_digits (10 * acc + digit_val c) True cs
      else if c = CHR ''_'' \<and> prev then parse_digits acc False cs
      else None)"

definition py_int :: "string \<Rightarrow> int option" where
  "py_int s =
     (case strip s of
        [] \<Rightarrow> None
      | c # cs \<Rightarrow>
          if c = CHR ''-'' then map_option (\<lambda>n. - int n) (parse_digits 0 False cs)
          else if c = CHR ''+'' then map_option int (parse_digits 0 False cs)
          else map_option int (parse_digits 0 False (c # cs)))"

text \<open>
  \<^verbatim>\<open>os.path.splitext\<close> on a file name without directory separator (the names come from
  \<^verbatim>\<open>os.listdir\<close>): the extension starts at the last dot, unless only dots stand before
  it.
\<close>

definition splitext :: "string \<Rightarrow> string \<times> string" where
  "splitext p =
     (let r = rev p;
          ext = rev (takeWhile (\<lambda>c. c \<noteq> CHR ''.'') r);
          head = rev (tl (dropWhile (\<lambda>c. c \<noteq> CHR ''.'') r))
      in if CHR ''.'' \<in> set p \<and> list_ex (\<lambda>c. c \<noteq> CHR ''.'') head
         then (head, CHR ''.'' # ext) else (p, []))"

text \<open>The exceptions the tool can end with; \<open>SystemExit\<close> carries the exit code.\<close>

datatype error =
    SystemExit nat
  | ValueError
  | TypeError
  | FileNotFoundError
  | FileExistsError
  | IsADirectoryError
  | NotADirectoryError
  | SameFileError
  | UnicodeDecodeError
  | YAMLError

section \<open>Taxonomy merge (lines 101--114 of main)\<close>

text \<open>
  \<^verbatim>\<open>merged_names = list(main_names)\<close>, then
  \<^verbatim>\<open>for n in new_names: if n not in merged_names: merged_names.append(n)\<close>.
  The first argument is the list built so far.
\<close>

fun merge_names :: "'a list \<Rightarrow> 'a list \<Rightarrow> 'a list" where
  "merge_names merged_names [] = merged_names"
| "merge_names merged_names (n # new_names) =
     merge_names (if n \<notin> set merged_names then merged_names @ [n] else merged_names) new_names"

text \<open>\<^verbatim>\<open>xs.index(x)\<close>: the first position of \<open>x\<close>; \<open>None\<close> is the \<^verbatim>\<open>ValueError\<close>.\<close>

fun index_of :: "'a list \<Rightarrow> 'a \<Rightarrow> nat option" where
  "index_of [] x = None"
| "index_of (y # ys) x = (if y = x then Some 0 else map_option Suc (index_of ys x))"

text \<open>
  \<^verbatim>\<open>new_to_merged = {i: merged_names.index(name) for i, name in enumerate(new_names)}\<close>.
  The dictionary is an association list from the incoming class ID to the merged one.
\<close>

type_synonym remap_table = "(int \<times> int) list"

definition new_to_merged :: "'a list \<Rightarrow> 'a list \<Rightarrow> error + remap_table" where
  "new_to_merged merged_names new_names =
     (case those (map (index_of merged_names) new_names) of
        None \<Rightarrow> Inl ValueError
      | Some js \<Rightarrow> Inr (zip (map int [0..<length new_names]) (map int js)))"

section \<open>Label remapping\<close>

type_synonym path = "string list"

text \<open>What the tool prints when it drops a label line (lines 158, 163 and 172).\<close>

datatype warning =
    Malformed_label path string
  | Cannot_parse_class_id path string
  | Cannot_map_class_id int path

text \<open>
  The planning loop over the lines of one label file (lines 154--174). The last argument
  holds \<^verbatim>\<open>remapped\<close> and the warnings printed so far.
\<close>

fun remap_plan ::
  "remap_table \<Rightarrow> nat \<Rightarrow> path \<Rightarrow> string list \<Rightarrow> string list \<times> warning list
     \<Rightarrow> string list \<times> warning list" where
  "remap_plan tbl n_merged src_lbl [] acc = acc"
| "remap_plan tbl n_merged src_lbl (ln # lns) (remapped, out) =
     (let parts = split_ws ln in
      if length parts < 5
      then remap_plan tbl n_merged src_lbl lns (remapped, out @ [Malformed_label src_lbl ln])
      else
        (case py_int (hd parts) of
           None \<Rightarrow>
             remap_plan tbl n_merged src_lbl lns
               (remapped, out @ [Cannot_parse_class_id src_lbl ln])
         | Some cid \<Rightarrow>
             (let new_cid =
                (case map_of tbl cid of
                   Some m \<Rightarrow> Some m
                 | None \<Rightarrow> if cid < int n_merged then Some cid else None)
              in case new_cid of
                   None \<Rightarrow>
                     remap_plan tbl n_merged src_lbl lns
                       (remapped, out @ [Cannot_map_class_id cid src_lbl])
                 | Some c \<Rightarrow>
                     remap_plan tbl n_merged src_lbl lns
                       (remapped @ [join '' '' (str_int c # tl parts)], out))))"

text \<open>
  The loop of apply mode over the same lines (lines 218--225): no handler around
  \<^verbatim>\<open>int(parts[0])\<close>, and \<^verbatim>\<open>new_to_merged.get(cid, cid)\<close> for the new class ID.
\<close>

fun remap_apply :: "remap_table \<Rightarrow> string list \<Rightarrow> string list \<Rightarrow> error + string list" where
  "remap_apply tbl [] remapped = Inr remapped"
| "remap_apply tbl (ln # lns) remapped =
     (let parts = split_ws ln in
      if length parts < 5 then remap_apply tbl lns remapped
      else
        (case py_int (hd parts) of
           None \<Rightarrow> Inl ValueError
         | Some cid \<Rightarrow>
             (let new_cid = (case map_of tbl cid of Some m \<Rightarrow> m | None \<Rightarrow> cid)
              in remap_apply tbl lns (remapped @ [join '' '' (str_int new_cid # tl parts)]))))"

section \<open>The file system\<close>

text \<open>
  Paths are lists of components below \<^verbatim>\<open>ROOT\<close>, the directory of the script; the empty
  path is \<^verbatim>\<open>ROOT\<close> itself, which is a directory. The file system is an association list
  from paths to nodes, so a directory has finitely many entries and \<^verbatim>\<open>os.listdir\<close>
  returns them in some fixed order. File times and modes, which \<^verbatim>\<open>shutil.copy2\<close> also
  copies, are not modelled.
\<close>

datatype node = Dir | File string

type_synonym filesystem = "(path \<times> node) list"

definition stat :: "filesystem \<Rightarrow> path \<Rightarrow> node option" where
  "stat fs p = (if p = [] then Some Dir else map_of fs p)"

definition path_exists :: "filesystem \<Rightarrow> path \<Rightarrow> bool" where
  "path_exists fs p = (stat fs p \<noteq> None)"

definition isdir :: "filesystem \<Rightarrow> path \<Rightarrow> bool" where
  "isdir fs p = (stat fs p = Some Dir)"

definition isfile :: "filesystem \<Rightarrow> path \<Rightarrow> bool" where
  "isfile fs p = (case stat fs p of Some (File c) \<Rightarrow> True | _ \<Rightarrow> False)"

definition listdir :: "filesystem \<Rightarrow> path \<Rightarrow> string list" where
  "listdir fs d = remdups (map (\<lambda>e. last (fst e)) (filter (\<lambda>e. fst e \<noteq> [] \<and> butlast (fst e) = d) fs))"

definition mkdir :: "filesystem \<Rightarrow> path \<Rightarrow> error + filesystem" where
  "mkdir fs p =
     (if path_exists fs p then Inl FileExistsError
      else (case stat fs (butlast p) of
              None \<Rightarrow> Inl FileNotFoundError
            | Some (File c) \<Rightarrow> Inl NotADirectoryError
            | Some Dir \<Rightarrow> Inr (AList.update p Dir fs)))"

text \<open>
  \<^verbatim>\<open>os.makedirs(p, exist_ok=True)\<close>: the missing parents first (a \<^verbatim>\<open>FileExistsError\<close>
  from there is passed over), then \<^verbatim>\<open>mkdir\<close>, whose error is passed over when the path is
  a directory.
\<close>

function makedirs :: "filesystem \<Rightarrow> path \<Rightarrow> error + filesystem" where
  "makedirs fs p =
     (case (if p \<noteq> [] \<and> \<not> path_exists fs (butlast p)
            then (case makedirs fs (butlast p) of
                    Inl e \<Rightarrow> if e = FileExistsError then Inr fs else Inl e
                  | Inr fs1 \<Rightarrow> Inr fs1)
            else Inr fs) of
        Inl e \<Rightarrow> Inl e
      | Inr fs1 \<Rightarrow>
          (case mkdir fs1 p of
             Inl e \<Rightarrow> if isdir fs1 p then Inr fs1 else Inl e
           | Inr fs2 \<Rightarrow> Inr fs2))"
  by pat_completeness auto
termination
  by (relation "measure (\<lambda>(fs, p). length p)") auto

declare makedirs.simps [simp del]

text \<open>\<^verbatim>\<open>ensure_dir\<close> (lines 80--82).\<close>

definition ensure_dir :: "filesystem \<Rightarrow> path \<Rightarrow> error + filesystem" where
  "ensure_dir fs d = (if \<not> isdir fs d then makedirs fs d else Inr fs)"

text \<open>The bytes of a file, as \<^verbatim>\<open>shutil.copy2\<close> reads them.\<close>

definition read_bytes :: "filesystem \<Rightarrow> path \<Rightarrow> error + string" where
  "read_bytes fs p =
     (case stat fs p of
        None \<Rightarrow> Inl FileNotFoundError
      | Some Dir \<Rightarrow> Inl IsADirectoryError
      | Some (File c) \<Rightarrow> Inr c)"

text \<open>
  The tool opens its text files with \<^verbatim>\<open>encoding='utf-8'\<close>: reading one whose bytes are
  not well-formed UTF-8 ends with \<^verbatim>\<open>UnicodeDecodeError\<close>. The well-formed sequences
  are those of the Unicode standard: no overlong form, no surrogate, nothing above
  U+10FFFF.
\<close>

definition byte_in :: "nat \<Rightarrow> nat \<Rightarrow> char \<Rightarrow> bool" where
  "byte_in lo hi c = (lo \<le> (of_char c :: nat) \<and> (of_char c :: nat) \<le> hi)"

fun tail_in :: "(nat \<times> nat) list \<Rightarrow> string \<Rightarrow> bool" where
  "tail_in [] cs = True"
| "tail_in (r # rs) [] = False"
| "tail_in (r # rs) (c # cs) = (byte_in (fst r) (snd r) c \<and> tail_in rs cs)"

function utf8_valid :: "string \<Rightarrow> bool" where
  "utf8_valid [] = True"
| "utf8_valid (a # r) =
     (if byte_in 0x00 0x7F a then utf8_valid r
      else if byte_in 0xC2 0xDF a then
        tail_in [(0x80, 0xBF)] r \<and> utf8_valid (drop 1 r)
      else if byte_in 0xE0 0xE0 a then
        tail_in [(0xA0, 0xBF), (0x80, 0xBF)] r \<and> utf8_valid (drop 2 r)
      else if byte_in 0xE1 0xEC a then
        tail_in [(0x80, 0xBF), (0x80, 0xBF)] r \<and> utf8_valid (drop 2 r)
      else if byte_in 0xED 0xED a then
        tail_in [(0x80, 0x9F), (0x80, 0xBF)] r \<and> utf8_valid (drop 2 r)
      else if byte_in 0xEE 0xEF a then
        tail_in [(0x80, 0xBF), (0x80, 0xBF)] r \<and> utf8_valid (drop 2 r)
      else if byte_in 0xF0 0xF0 a then
        tail_in [(0x90, 0xBF), (0x80, 0xBF), (0x80, 0xBF)] r \<and> utf8_valid (drop 3 r)
      else if byte_in 0xF1 0xF3 a then
        tail_in [(0x80, 0xBF), (0x80, 0xBF), (0x80, 0xBF)] r \<and> utf8_valid (drop 3 r)
      else if byte_in 0xF4 0xF4 a then
        tail_in [(0x80, 0x8F), (0x80, 0xBF), (0x80, 0xBF)] r \<and> utf8_valid (drop 3 r)
      else False)"
  by pat_completeness auto
termination
  by (relation "measure length") auto

declare utf8_valid.simps [simp del]

text \<open>Reading a whole text file, and \<^verbatim>\<open>open(p, 'w')\<close> followed by one \<^verbatim>\<open>write\<close>.\<close>

definition read_text :: "filesystem \<Rightarrow> path \<Rightarrow> error + string" where
  "read_text fs p =
     (case read_bytes fs p of
        Inl e \<Rightarrow> Inl e
      | Inr c \<Rightarrow> if utf8_valid c then Inr c else Inl UnicodeDecodeError)"

definition write_text :: "filesystem \<Rightarrow> path \<Rightarrow> string \<Rightarrow> error + filesystem" where
  "write_text fs p c =
     (if isdir fs p then Inl IsADirectoryError
      else (case stat fs (butlast p) of
              None \<Rightarrow> Inl FileNotFoundError
            | Some (File x) \<Rightarrow> Inl NotADirectoryError
            | Some Dir \<Rightarrow> Inr (AList.update p (File c) fs)))"

text \<open>
  \<^verbatim>\<open>shutil.copy2(src, dst)\<close>: into the directory when \<open>dst\<close> is one; the source must be
  a file other than the destination.
\<close>

definition copy2 :: "filesystem \<Rightarrow> path \<Rightarrow> path \<Rightarrow> error + filesystem" where
  "copy2 fs src dst =
     (let dst1 = (if isdir fs dst then dst @ [last src] else dst) in
      if path_exists fs src \<and> src = dst1 then Inl SameFileError
      else (case read_bytes fs src of
              Inl e \<Rightarrow> Inl e
            | Inr c \<Rightarrow> write_text fs dst1 c))"

text \<open>
  Iterating over a file opened in text mode: the lines with their line ends, where
  \<^verbatim>\<open>\r\n\<close> and \<^verbatim>\<open>\r\<close> are read as \<^verbatim>\<open>\n\<close>.
\<close>

fun text_lines :: "string \<Rightarrow> string \<Rightarrow> string list" where
  "text_lines cur [] = (if cur = [] then [] else [cur])"
| "text_lines cur (c # cs) =
     (if c = CHR 0x0A then (cur @ [CHR 0x0A]) # text_lines [] cs
      else if c = CHR 0x0D then
        (case cs of
           [] \<Rightarrow> [cur @ [CHR 0x0A]]
         | d # ds \<Rightarrow>
             (cur @ [CHR 0x0A]) # (if d = CHR 0x0A then text_lines [] ds else text_lines [] cs))
      else text_lines (cur @ [c]) cs)"

text \<open>\<^verbatim>\<open>[ln.strip() for ln in f if ln.strip()]\<close> (lines 153 and 217).\<close>

definition label_lines :: "string \<Rightarrow> string list" where
  "label_lines text = filter (\<lambda>ln. ln \<noteq> []) (map strip (text_lines [] text))"

text \<open>\<^verbatim>\<open>list_files\<close> (lines 71--77).\<close>

definition list_files :: "filesystem \<Rightarrow> path \<Rightarrow> path \<Rightarrow> string list" where
  "list_files fs images_dir labels_dir =
     (if isdir fs images_dir
      then filter (\<lambda>fn. list_ex (endswith (lower fn))
                          [''.jpg'', ''.jpeg'', ''.png'', ''.bmp'', ''.tif'', ''.tiff''])
             (listdir fs images_dir)
      else [])"

section \<open>Taxonomy descriptors\<close>

text \<open>
  A descriptor is a dictionary from keys to values, in insertion order. The YAML library
  is an external collaborator: when it is installed the tool is given its parser and its
  printer, otherwise \<open>None\<close>. A document that is not a mapping makes
  \<^verbatim>\<open>main_cfg.get\<close> fail at line 101, before anything is printed or written; the
  parser's \<open>Inl\<close> stands for that failure too.

  A value is null, an integer, a string, a list or a mapping. \<open>YSeq\<close> is a list all of
  whose items are strings, \<open>YList\<close> a list with an item that is not a string, and
  \<open>YMap\<close> a mapping with its distinct keys in order. The items of a list and the keys
  of a mapping are scalars, on which Python's \<^verbatim>\<open>==\<close> is equality. Booleans (which Python
  equates with 0 and 1), floating-point numbers, dates and lists of lists or of mappings
  are outside the model.
\<close>

datatype scalar = SNull | SInt int | SStr string

datatype yaml_value =
    YNull
  | YInt int
  | YStr string
  | YSeq "string list"
  | YList "scalar list"
  | YMap "(scalar \<times> yaml_value) list"

type_synonym config = "(string \<times> yaml_value) list"

record yaml_lib =
  safe_load :: "string \<Rightarrow> error + config"
  dump :: "config \<Rightarrow> string"

text \<open>The fallback parser of \<^verbatim>\<open>load_yaml\<close> (lines 43--58): its loop over the lines.\<close>

definition after_colon :: "string \<Rightarrow> string" where
  "after_colon line = tl (dropWhile (\<lambda>c. c \<noteq> CHR '':'') line)"

fun fallback_parse :: "config \<Rightarrow> string list \<Rightarrow> error + config" where
  "fallback_parse d [] = Inr d"
| "fallback_parse d (line # lines) =
     (if startswith line ''nc:'' then
        (case py_int (strip (after_colon line)) of
           None \<Rightarrow> Inl ValueError
         | Some n \<Rightarrow> fallback_parse (AList.update ''nc'' (YInt n) d) lines)
      else if startswith line ''names:'' then
        (let val = strip (after_colon line) in
         if startswith val ''['' \<and> endswith val '']'' then
           (let items = strip (butlast (tl val)) in
            if items \<noteq> [] then
              fallback_parse
                (AList.update ''names''
                   (YSeq (map (\<lambda>s. strip_chars [CHR 0x27, CHR 0x22] (strip s))
                            (split_on CHR '','' items))) d) lines
            else fallback_parse (AList.update ''names'' (YSeq []) d) lines)
         else fallback_parse d lines)
      else fallback_parse d lines)"

text \<open>\<^verbatim>\<open>load_yaml\<close> (lines 38--58).\<close>

definition load_yaml :: "yaml_lib option \<Rightarrow> filesystem \<Rightarrow> path \<Rightarrow> error + config" where
  "load_yaml yaml fs p =
     (case read_text fs p of
        Inl e \<Rightarrow> Inl e
      | Inr text \<Rightarrow>
          (case yaml of
             Some lib \<Rightarrow> safe_load lib text
           | None \<Rightarrow>
               fallback_parse []
                 (filter (\<lambda>l. l \<noteq> [] \<and> \<not> startswith l ''#'') (map strip (text_lines [] text)))))"

text \<open>
  \<^verbatim>\<open>cfg.get('names') or []\<close>, read as the list of names the loops of lines 104--114 go
  through: the items of a list, the keys of a mapping, the characters of a string; a
  non-zero number is not iterable.
\<close>

definition get_names :: "config \<Rightarrow> error + scalar list" where
  "get_names cfg =
     (case map_of cfg ''names'' of
        None \<Rightarrow> Inr []
      | Some YNull \<Rightarrow> Inr []
      | Some (YInt i) \<Rightarrow> if i = 0 then Inr [] else Inl TypeError
      | Some (YStr s) \<Rightarrow> Inr (map (\<lambda>c. SStr [c]) s)
      | Some (YSeq ns) \<Rightarrow> Inr (map SStr ns)
      | Some (YList xs) \<Rightarrow> Inr xs
      | Some (YMap kvs) \<Rightarrow> Inr (map fst kvs))"

text \<open>The list of merged names as a descriptor value.\<close>

definition the_str :: "scalar \<Rightarrow> string option" where
  "the_str x = (case x of SStr s \<Rightarrow> Some s | _ \<Rightarrow> None)"

definition names_value :: "scalar list \<Rightarrow> yaml_value" where
  "names_value xs = (case those (map the_str xs) of Some ns \<Rightarrow> YSeq ns | None \<Rightarrow> YList xs)"

text \<open>\<^verbatim>\<open>new_main_cfg\<close> (lines 230--232).\<close>

definition new_main_cfg :: "config \<Rightarrow> scalar list \<Rightarrow> config" where
  "new_main_cfg main_cfg merged_names =
     AList.update ''names'' (names_value merged_names)
       (AList.update ''nc'' (YInt (int (length merged_names))) main_cfg)"

text \<open>
  \<^verbatim>\<open>repr\<close> and \<^verbatim>\<open>str\<close> of strings, scalars and descriptor values. \<^verbatim>\<open>repr\<close> of a
  string quotes it, with double quotes when it holds a single quote and no double quote,
  and escapes the quote, the backslash and the control characters.
\<close>

definition quoted :: "string \<Rightarrow> string" where
  "quoted n = [CHR 0x27] @ n @ [CHR 0x27]"

definition hex2 :: "nat \<Rightarrow> string" where
  "hex2 n = [''0123456789abcdef'' ! (n div 16), ''0123456789abcdef'' ! (n mod 16)]"

definition repr_char :: "char \<Rightarrow> char \<Rightarrow> string" where
  "repr_char q c =
     (if c = q \<or> c = CHR 0x5C then [CHR 0x5C, c]
      else if c = CHR 0x09 then [CHR 0x5C, CHR ''t'']
      else if c = CHR 0x0A then [CHR 0x5C, CHR ''n'']
      else if c = CHR 0x0D then [CHR 0x5C, CHR ''r'']
      else if (of_char c :: nat) < 32 \<or> (of_char c :: nat) = 127
        then [CHR 0x5C, CHR ''x''] @ hex2 (of_char c)
      else [c])"

definition repr_str :: "string \<Rightarrow> string" where
  "repr_str s =
     (let q = (if CHR 0x27 \<in> set s \<and> CHR 0x22 \<notin> set s then CHR 0x22 else CHR 0x27)
      in [q] @ concat (map (repr_char q) s) @ [q])"

definition repr_scalar :: "scalar \<Rightarrow> string" where
  "repr_scalar x = (case x of SNull \<Rightarrow> ''None'' | SInt i \<Rightarrow> str_int i | SStr s \<Rightarrow> repr_str s)"

definition str_scalar :: "scalar \<Rightarrow> string" where
  "str_scalar x = (case x of SStr s \<Rightarrow> s | _ \<Rightarrow> repr_scalar x)"

fun repr_value :: "yaml_value \<Rightarrow> string" where
  "repr_value YNull = ''None''"
| "repr_value (YInt i) = str_int i"
| "repr_value (YStr s) = repr_str s"
| "repr_value (YSeq ns) = ''['' @ join '', '' (map repr_str ns) @ '']''"
| "repr_value (YList xs) = ''['' @ join '', '' (map repr_scalar xs) @ '']''"
| "repr_value (YMap kvs) =
     ''{'' @ join '', '' (map (\<lambda>kv. repr_scalar (fst kv) @ '': '' @ repr_value (snd kv)) kvs)
     @ ''}''"

definition str_value :: "yaml_value \<Rightarrow> string" where
  "str_value v = (case v of YStr s \<Rightarrow> s | _ \<Rightarrow> repr_value v)"

text \<open>The text of the simple writer (lines 239--246).\<close>

definition simple_writer :: "config \<Rightarrow> scalar list \<Rightarrow> string" where
  "simple_writer main_cfg merged_names =
     concat (map (\<lambda>key. case map_of main_cfg key of
                           None \<Rightarrow> []
                         | Some v \<Rightarrow> key @ '': '' @ str_value v @ [CHR 0x0A])
                 [''train'', ''val'', ''test''])
     @ [CHR 0x0A]
     @ ''nc: '' @ str_nat (length merged_names) @ [CHR 0x0A]
     @ ''names: ['' @ join '', '' (map (\<lambda>n. quoted (str_scalar n)) merged_names) @ '']''
     @ [CHR 0x0A]"

section \<open>Planning (lines 116--181)\<close>

text \<open>
  The world the tool acts on: the file system and the warnings printed so far. The report
  of the planned operations and the summary counters, which are only printed, are left
  out. A step returns its result, or the exception that ends the run, with the world as it
  is then.
\<close>

record world =
  files :: filesystem
  printed :: "warning list"

type_synonym 'a io = "world \<Rightarrow> (error + 'a) \<times> world"

definition io_bind :: "'a io \<Rightarrow> ('a \<Rightarrow> 'b io) \<Rightarrow> 'b io" where
  "io_bind m f w = (case m w of (Inl e, w1) \<Rightarrow> (Inl e, w1) | (Inr a, w1) \<Rightarrow> f a w1)"

definition on_fs :: "(filesystem \<Rightarrow> error + filesystem) \<Rightarrow> unit io" where
  "on_fs f w = (case f (files w) of Inl e \<Rightarrow> (Inl e, w) | Inr fs1 \<Rightarrow> (Inr (), w\<lparr>files := fs1\<rparr>))"

fun for_each :: "('a \<Rightarrow> 'b io) \<Rightarrow> 'a list \<Rightarrow> 'b list io" where
  "for_each body [] w = (Inr [], w)"
| "for_each body (x # xs) w =
     (case body x w of
        (Inl e, w1) \<Rightarrow> (Inl e, w1)
      | (Inr y, w1) \<Rightarrow>
          (case for_each body xs w1 of
             (Inl e, w2) \<Rightarrow> (Inl e, w2)
           | (Inr ys, w2) \<Rightarrow> (Inr (y # ys), w2)))"

text \<open>A planned operation: the tuple appended at line 178.\<close>

record merge_op =
  src_img :: path
  dst_img :: path
  src_lbl :: "path option"
  dst_lbl :: "path option"

text \<open>The loop that looks for a free destination name (lines 140--144).\<close>

function unique_name ::
  "filesystem \<Rightarrow> path \<Rightarrow> string \<Rightarrow> string \<Rightarrow> string \<Rightarrow> nat \<Rightarrow> string" where
  "unique_name fs main_images_dir stem ext dst_img_name k =
     (if path_exists fs (main_images_dir @ [dst_img_name])
      then unique_name fs main_images_dir stem ext
             (''new_'' @ stem @ ''_'' @ str_nat k @ ext) (k + 1)
      else dst_img_name)"
  by pat_completeness auto
termination
proof (relation "measure (\<lambda>(fs, d, stem, ext, name, k).
         2 * card {j. k \<le> j \<and> path_exists fs (d @ [''new_'' @ stem @ ''_'' @ str_nat j @ ext])}
         + (if path_exists fs (d @ [name]) then 1 else 0))")
  show "wf (measure (\<lambda>(fs, d, stem, ext, name, k).
         2 * card {j. k \<le> j \<and> path_exists fs (d @ [''new_'' @ stem @ ''_'' @ str_nat j @ ext])}
         + (if path_exists fs (d @ [name]) then 1 else 0)))"
    by (rule wf_measure)
next
  fix fs :: filesystem and d :: path and stem ext name :: string and k :: nat
  assume ex: "path_exists fs (d @ [name])"
  let ?c = "\<lambda>j. d @ [''new_'' @ stem @ ''_'' @ str_nat j @ ext]"
  let ?S = "\<lambda>k. {j. k \<le> j \<and> path_exists fs (?c j)}"
  have dv: "digit_val (digit_char m) = m" if "m < 10" for m
  proof -
    from that have "m = 0 \<or> m = 1 \<or> m = 2 \<or> m = 3 \<or> m = 4 \<or> m = 5 \<or> m = 6 \<or> m = 7
        \<or> m = 8 \<or> m = 9"
      by arith
    then show ?thesis by (elim disjE) (simp_all add: digit_val_def digit_char_def)
  qed
  have val: "foldl (\<lambda>a c. 10 * a + digit_val c) 0 (str_nat n) = n" for n
  proof (induction n rule: str_nat.induct)
    case (1 n)
    show ?case
    proof (cases "n < 10")
      case True
      then show ?thesis by (subst str_nat.simps) (simp add: dv)
    next
      case False
      with 1 show ?thesis by (subst str_nat.simps) (simp add: dv)
    qed
  qed
  have inj: "inj ?c"
  proof (rule injI)
    fix a b assume "?c a = ?c b"
    then have "str_nat a = str_nat b" by simp
    then have "foldl (\<lambda>a c. 10 * a + digit_val c) 0 (str_nat a)
             = foldl (\<lambda>a c. 10 * a + digit_val c) 0 (str_nat b)" by (rule arg_cong)
    then show "a = b" by (simp only: val)
  qed
  have sub: "{j. path_exists fs (?c j)} \<subseteq> ?c -` (fst ` set fs)"
  proof
    fix j assume "j \<in> {j. path_exists fs (?c j)}"
    then have "map_of fs (?c j) \<noteq> None" by (simp add: path_exists_def stat_def)
    then have "?c j \<in> fst ` set fs" by (simp add: map_of_eq_None_iff)
    then show "j \<in> ?c -` (fst ` set fs)" by simp
  qed
  have "finite (?c -` (fst ` set fs))"
    using inj by (intro finite_vimageI) simp_all
  with sub have fin: "finite {j. path_exists fs (?c j)}"
    by (rule finite_subset)
  have finS: "finite (?S k)" for k
    by (rule finite_subset [OF _ fin]) blast
  have "2 * card (?S (k + 1)) + (if path_exists fs (?c k) then 1 else 0)
        < 2 * card (?S k) + 1"
  proof (cases "path_exists fs (?c k)")
    case True
    have "k \<in> ?S k" "k \<notin> ?S (k + 1)" using True by simp_all
    moreover have "?S (k + 1) \<subseteq> ?S k" by auto
    ultimately have "?S (k + 1) \<subset> ?S k" by blast
    then have "card (?S (k + 1)) < card (?S k)"
      by (rule psubset_card_mono [OF finS])
    then show ?thesis using True by simp
  next
    case False
    have "?S (k + 1) = ?S k"
    proof (rule set_eqI)
      fix j
      have "j \<noteq> k" if "path_exists fs (?c j)" using that False by blast
      then show "j \<in> ?S (k + 1) \<longleftrightarrow> j \<in> ?S k" by (cases "j = k") auto
    qed
    then show ?thesis using False by simp
  qed
  then show "((fs, d, stem, ext, ''new_'' @ stem @ ''_'' @ str_nat k @ ext, k + 1),
         (fs, d, stem, ext, name, k))
        \<in> measure (\<lambda>(fs, d, stem, ext, name, k).
         2 * card {j. k \<le> j \<and> path_exists fs (d @ [''new_'' @ stem @ ''_'' @ str_nat j @ ext])}
         + (if path_exists fs (d @ [name]) then 1 else 0))"
    using ex by simp
qed

declare unique_name.simps [simp del]

text \<open>The body of the loop over the images of one subset (lines 134--181).\<close>

definition plan_image ::
  "remap_table \<Rightarrow> nat \<Rightarrow> path \<Rightarrow> path \<Rightarrow> path \<Rightarrow> path \<Rightarrow> string \<Rightarrow> merge_op io" where
  "plan_image tbl n_merged new_images_dir new_labels_dir main_images_dir main_labels_dir
     img_name w =
     (let stem = fst (splitext img_name);
          ext = snd (splitext img_name);
          dst_img_name = unique_name (files w) main_images_dir stem ext (''new_'' @ img_name) 1;
          sl = new_labels_dir @ [stem @ ''.txt''];
          dl = main_labels_dir @ [fst (splitext dst_img_name) @ ''.txt'']
      in if path_exists (files w) sl then
           (case read_text (files w) sl of
              Inl e \<Rightarrow> (Inl e, w)
            | Inr text \<Rightarrow>
                (Inr \<lparr>src_img = new_images_dir @ [img_name],
                      dst_img = main_images_dir @ [dst_img_name],
                      src_lbl = Some sl, dst_lbl = Some dl\<rparr>,
                 w\<lparr>printed := printed w @ snd (remap_plan tbl n_merged sl (label_lines text) ([], []))\<rparr>))
         else
           (Inr \<lparr>src_img = new_images_dir @ [img_name],
                 dst_img = main_images_dir @ [dst_img_name],
                 src_lbl = None, dst_lbl = None\<rparr>, w))"

text \<open>The body of the loop over the subsets (lines 122--181).\<close>

definition plan_subset :: "remap_table \<Rightarrow> nat \<Rightarrow> string \<Rightarrow> merge_op list io" where
  "plan_subset tbl n_merged sub w =
     (if \<not> isdir (files w) [''new'', sub, ''images''] then (Inr [], w)
      else
        io_bind (on_fs (\<lambda>f. ensure_dir f [sub, ''images''])) (\<lambda>u.
        io_bind (on_fs (\<lambda>f. ensure_dir f [sub, ''labels''])) (\<lambda>u w1.
          for_each
            (plan_image tbl n_merged [''new'', sub, ''images''] [''new'', sub, ''labels'']
               [sub, ''images''] [sub, ''labels''])
            (list_files (files w1) [''new'', sub, ''images''] [''new'', sub, ''labels''])
            w1)) w)"

definition plan_all :: "remap_table \<Rightarrow> nat \<Rightarrow> merge_op list io" where
  "plan_all tbl n_merged =
     io_bind (for_each (plan_subset tbl n_merged) [''train'', ''valid'', ''test''])
       (\<lambda>opss w. (Inr (concat opss), w))"

section \<open>Apply (lines 204--249)\<close>

text \<open>The body of the loop over the planned operations (lines 213--227).\<close>

definition apply_op :: "remap_table \<Rightarrow> merge_op \<Rightarrow> unit io" where
  "apply_op tbl op =
     io_bind (on_fs (\<lambda>f. copy2 f (src_img op) (dst_img op))) (\<lambda>u w.
       (case (src_lbl op, dst_lbl op) of
          (Some sl, Some dl) \<Rightarrow>
            (case read_text (files w) sl of
               Inl e \<Rightarrow> (Inl e, w)
             | Inr text \<Rightarrow>
                 (case remap_apply tbl (label_lines text) [] of
                    Inl e \<Rightarrow> (Inl e, w)
                  | Inr remapped \<Rightarrow>
                      on_fs (\<lambda>f. write_text f dl
                        (join [CHR 0x0A] remapped @ (if remapped \<noteq> [] then [CHR 0x0A] else [])))
                        w))
        | _ \<Rightarrow> (Inr (), w)))"

definition apply_changes ::
  "yaml_lib option \<Rightarrow> remap_table \<Rightarrow> config \<Rightarrow> scalar list \<Rightarrow> merge_op list \<Rightarrow> nat io" where
  "apply_changes yaml tbl main_cfg merged_names planned_ops =
     io_bind (on_fs (\<lambda>f. copy2 f [''data.yaml''] [''data.yaml.bak''])) (\<lambda>u.
     io_bind (for_each (apply_op tbl) planned_ops) (\<lambda>us.
     io_bind (on_fs (\<lambda>f. write_text f [''data.yaml'']
                (case yaml of
                   Some lib \<Rightarrow> dump lib (new_main_cfg main_cfg merged_names)
                 | None \<Rightarrow> simple_writer main_cfg merged_names))) (\<lambda>u w.
     (Inr 0, w))))"

section \<open>main (lines 85--249)\<close>

definition main :: "bool \<Rightarrow> yaml_lib option \<Rightarrow> nat io" where
  "main dry_run yaml w =
     (if \<not> isfile (files w) [''data.yaml''] then (Inl (SystemExit 2), w)
      else if \<not> isdir (files w) [''new''] then (Inl (SystemExit 2), w)
      else
        (case load_yaml yaml (files w) [''data.yaml''] of
           Inl e \<Rightarrow> (Inl e, w)
         | Inr main_cfg \<Rightarrow>
        (case (if isfile (files w) [''new'', ''data.yaml'']
               then load_yaml yaml (files w) [''new'', ''data.yaml''] else Inr []) of
           Inl e \<Rightarrow> (Inl e, w)
         | Inr new_cfg \<Rightarrow>
        (case get_names main_cfg of
           Inl e \<Rightarrow> (Inl e, w)
         | Inr main_names \<Rightarrow>
        (case get_names new_cfg of
           Inl e \<Rightarrow> (Inl e, w)
         | Inr new_names \<Rightarrow>
        (case new_to_merged (merge_names main_names new_names) new_names of
           Inl e \<Rightarrow> (Inl e, w)
         | Inr tbl \<Rightarrow>
             io_bind (plan_all tbl (length (merge_names main_names new_names)))
               (\<lambda>planned_ops.
                  if dry_run then (\<lambda>w1. (Inr 0, w1))
                  else apply_changes yaml tbl main_cfg
                         (merge_names main_names new_names) planned_ops) w))))))"

section \<open>Notions of the specification\<close>

text \<open>
  The names the resolver tries, in the words of the specification (section 4.3): first
  \<^verbatim>\<open>new_<filename>\<close>, then \<^verbatim>\<open>new_<stem>_<k><ext>\<close> for \<open>k = 1, 2, \<dots>\<close>
\<close>

definition candidate :: "string \<Rightarrow> nat \<Rightarrow> string" where
  "candidate filename k =
     (if k = 0 then ''new_'' @ filename
      else ''new_'' @ fst (splitext filename) @ ''_'' @ str_nat k @ snd (splitext filename))"

text \<open>
  The file system \<open>fs1\<close> is \<open>fs\<close> with, at most, directories added: every path has the
  node it had, or had none and is a directory now.
\<close>

definition dirs_added :: "filesystem \<Rightarrow> filesystem \<Rightarrow> bool" where
  "dirs_added fs fs1 = (\<forall>q. stat fs1 q = stat fs q \<or> (stat fs q = None \<and> stat fs1 q = Some Dir))"

section \<open>Example workspaces\<close>

text \<open>
  The main descriptor holds two path fields besides \<^verbatim>\<open>nc\<close> and \<^verbatim>\<open>names\<close>; the main
  taxonomy is cat, dog and the incoming one dog, bird (the scenario of the specification).
\<close>

definition main_descriptor :: string where
  "main_descriptor =
     ''train: train/images'' @ [CHR 0x0A] @
     ''val: valid/images'' @ [CHR 0x0A] @
     ''nc: 2'' @ [CHR 0x0A] @
     ''names: ['' @ quoted ''cat'' @ '', '' @ quoted ''dog'' @ '']'' @ [CHR 0x0A]"

definition new_descriptor :: string where
  "new_descriptor =
     ''nc: 2'' @ [CHR 0x0A] @
     ''names: ['' @ quoted ''dog'' @ '', '' @ quoted ''bird'' @ '']'' @ [CHR 0x0A]"

text \<open>One incoming training image with a label file of the given text.\<close>

definition workspace :: "string \<Rightarrow> filesystem" where
  "workspace label_text =
     [([''data.yaml''], File main_descriptor),
      ([''train''], Dir), ([''train'', ''images''], Dir), ([''train'', ''labels''], Dir),
      ([''new''], Dir), ([''new'', ''data.yaml''], File new_descriptor),
      ([''new'', ''train''], Dir), ([''new'', ''train'', ''images''], Dir),
      ([''new'', ''train'', ''labels''], Dir),
      ([''new'', ''train'', ''images'', ''a.jpg''], File ''A''),
      ([''new'', ''train'', ''labels'', ''a.txt''], File label_text)]"

text \<open>The incoming dataset brings a validation split that the main dataset lacks.\<close>

definition workspace_new_split :: filesystem where
  "workspace_new_split =
     [([''data.yaml''], File main_descriptor),
      ([''train''], Dir), ([''train'', ''images''], Dir), ([''train'', ''labels''], Dir),
      ([''new''], Dir), ([''new'', ''data.yaml''], File new_descriptor),
      ([''new'', ''valid''], Dir), ([''new'', ''valid'', ''images''], Dir),
      ([''new'', ''valid'', ''images'', ''a.jpg''], File ''A'')]"

text \<open>
  An earlier merge left \<^verbatim>\<open>new_a.jpg\<close> in the main dataset; the incoming dataset holds
  \<^verbatim>\<open>a.jpg\<close> and \<^verbatim>\<open>a_1.jpg\<close>.
\<close>

definition workspace_collision :: filesystem where
  "workspace_collision =
     [([''data.yaml''], File main_descriptor),
      ([''train''], Dir), ([''train'', ''images''], Dir), ([''train'', ''labels''], Dir),
      ([''train'', ''images'', ''new_a.jpg''], File ''old''),
      ([''new''], Dir), ([''new'', ''data.yaml''], File new_descriptor),
      ([''new'', ''train''], Dir), ([''new'', ''train'', ''images''], Dir),
      ([''new'', ''train'', ''images'', ''a.jpg''], File ''A''),
      ([''new'', ''train'', ''images'', ''a_1.jpg''], File ''B'')]"

text \<open>
  An earlier merge left \<^verbatim>\<open>new_img.jpg\<close> in the main dataset; the incoming dataset holds
  \<^verbatim>\<open>img.jpg\<close> with a label file, and \<^verbatim>\<open>b.png\<close> without one.
\<close>

definition workspace_taken_name :: filesystem where
  "workspace_taken_name =
     [([''data.yaml''], File main_descriptor),
      ([''train''], Dir), ([''train'', ''images''], Dir), ([''train'', ''labels''], Dir),
      ([''train'', ''images'', ''new_img.jpg''], File ''old''),
      ([''new''], Dir), ([''new'', ''data.yaml''], File new_descriptor),
      ([''new'', ''train''], Dir), ([''new'', ''train'', ''images''], Dir),
      ([''new'', ''train'', ''labels''], Dir),
      ([''new'', ''train'', ''images'', ''img.jpg''], File ''A''),
      ([''new'', ''train'', ''images'', ''b.png''], File ''B''),
      ([''new'', ''train'', ''labels'', ''img.txt''],
       File (''0 0.5 0.5 0.1 0.1'' @ [CHR 0x0A]))]"

text \<open>An incoming dataset without descriptor.\<close>

definition workspace_no_descriptor :: filesystem where
  "workspace_no_descriptor =
     [([''data.yaml''], File main_descriptor),
      ([''train''], Dir), ([''train'', ''images''], Dir), ([''train'', ''labels''], Dir),
      ([''new''], Dir),
      ([''new'', ''train''], Dir), ([''new'', ''train'', ''images''], Dir),
      ([''new'', ''train'', ''labels''], Dir),
      ([''new'', ''train'', ''images'', ''a.jpg''], File ''A''),
      ([''new'', ''train'', ''labels'', ''a.txt''],
       File (''1 0.5 0.5 0.1 0.1'' @ [CHR 0x0A] @ ''2 0.5 0.5 0.1 0.1'' @ [CHR 0x0A]))]"

section \<open>Properties of the taxonomy merge\<close>

lemma first_occ_Cons:
  "rev (remdups (rev (n # xs))) = n # rev (remdups (rev (filter (\<lambda>x. x \<noteq> n) xs)))"
proof -
  have "remdups (ys @ [n]) = filter (\<lambda>x. x \<noteq> n) (remdups ys) @ [n]" for ys
    by (induction ys) auto
  then have "remdups (rev xs @ [n]) = remdups (filter (\<lambda>x. x \<noteq> n) (rev xs)) @ [n]"
    by (simp add: remdups_filter)
  then show ?thesis by (simp add: rev_filter)
qed

lemma merge_names_append:
  "merge_names m new = m @ rev (remdups (rev (filter (\<lambda>n. n \<notin> set m) new)))"
proof (induction new arbitrary: m)
  case Nil
  show ?case by simp
next
  case (Cons n ns)
  show ?case
  proof (cases "n \<in> set m")
    case True
    then show ?thesis by (simp add: Cons.IH)
  next
    case False
    have "filter (\<lambda>x. x \<noteq> n) (filter (\<lambda>x. x \<notin> set m) ns)
          = filter (\<lambda>x. x \<notin> set (m @ [n])) ns"
      by (simp add: conj_commute)
    with False show ?thesis
      by (simp add: Cons.IH first_occ_Cons del: remdups.simps rev.simps)
  qed
qed

lemma set_merge_names: "set (merge_names m new) = set m \<union> set new"
  by (auto simp: merge_names_append)

lemma length_merge_names:
  "length (merge_names m new) = length m + card (set new - set m)"
proof -
  have "length (remdups (rev (filter (\<lambda>n. n \<notin> set m) new)))
        = card (set (rev (filter (\<lambda>n. n \<notin> set m) new)))"
    by (rule length_remdups_card_conv)
  moreover have "set (rev (filter (\<lambda>n. n \<notin> set m) new)) = set new - set m"
    by auto
  ultimately show ?thesis by (simp add: merge_names_append)
qed

lemma index_of_Some_iff:
  "index_of xs x = Some j \<longleftrightarrow> j < length xs \<and> xs ! j = x \<and> (\<forall>i<j. xs ! i \<noteq> x)"
proof (induction xs arbitrary: j)
  case Nil
  show ?case by simp
next
  case (Cons y ys)
  show ?case
  proof (cases "y = x")
    case True
    then show ?thesis by (cases j) auto
  next
    case False
    show ?thesis
    proof (cases j)
      case 0
      with False show ?thesis by auto
    next
      case (Suc j')
      have "(\<forall>i<Suc j'. (y # ys) ! i \<noteq> x) \<longleftrightarrow> (\<forall>i<j'. ys ! i \<noteq> x)"
        using False by (auto simp: less_Suc_eq_0_disj)
      with False Suc show ?thesis by (auto simp: Cons.IH)
    qed
  qed
qed

lemma index_of_mem: "x \<in> set xs \<Longrightarrow> \<exists>j. index_of xs x = Some j"
  by (induction xs) auto

lemma index_of_append_left:
  "x \<in> set xs \<Longrightarrow> index_of (xs @ ys) x = index_of xs x"
  by (induction xs) auto

lemma those_map_Some:
  "list_all (\<lambda>x. f x \<noteq> None) xs \<Longrightarrow> those (map f xs) = Some (map (\<lambda>x. the (f x)) xs)"
  by (induction xs) auto

lemma map_of_zip_upt:
  "length ys = n \<Longrightarrow> i < n \<Longrightarrow> map_of (zip (map int [0..<n]) ys) (int i) = Some (ys ! i)"
proof -
  assume a: "length ys = n" "i < n"
  have d: "distinct (map int [0..<n])" by (simp add: distinct_map inj_on_def)
  have "map_of (zip (map int [0..<n]) ys) (map int [0..<n] ! i) = Some (ys ! i)"
    using a d by (intro map_of_zip_nth) simp_all
  with a show ?thesis by simp
qed

lemma map_of_zip_upt_dom:
  "length ys = n \<Longrightarrow> (map_of (zip (map int [0..<n]) ys) c \<noteq> None) = (0 \<le> c \<and> c < int n)"
proof -
  assume a: "length ys = n"
  have "(map_of (zip (map int [0..<n]) ys) c \<noteq> None) = (c \<in> set (map int [0..<n]))"
    using a by (simp add: map_of_zip_is_None)
  also have "\<dots> = (0 \<le> c \<and> c < int n)"
  proof
    assume "c \<in> set (map int [0..<n])" then show "0 \<le> c \<and> c < int n" by auto
  next
    assume "0 \<le> c \<and> c < int n"
    then have "nat c < n" "c = int (nat c)" by linarith+
    then show "c \<in> set (map int [0..<n])" by (metis atLeastLessThan_iff zero_le image_eqI set_map set_upt)
  qed
  finally show ?thesis .
qed

lemma merge_names_nth:
  "i < length m \<Longrightarrow> merge_names m new ! i = m ! i"
  by (simp add: merge_names_append nth_append)

lemma merge_names_index:
  "x \<in> set m \<Longrightarrow> index_of (merge_names m new) x = index_of m x"
  by (simp add: merge_names_append index_of_append_left)

text \<open>
  C4. The merged taxonomy is the main name list followed by the names of the incoming list
  that the main list does not hold, each once, in the order of their first occurrence.
  Its length is the length of the main list plus the number of distinct incoming names
  outside it; every position of the main list keeps its name, and every name of the main
  list keeps its index; an empty incoming list gives the main list back, and an empty main
  list gives a duplicate-free incoming list back. The merge is a total function: no input
  makes it fail.
\<close>

theorem merge_names_correct:
  "merge_names main_names new_names
     = main_names @ rev (remdups (rev (filter (\<lambda>n. n \<notin> set main_names) new_names)))
   \<and> length (merge_names main_names new_names)
     = length main_names + card (set new_names - set main_names)
   \<and> (\<forall>i<length main_names.
        merge_names main_names new_names ! i = main_names ! i
        \<and> index_of (merge_names main_names new_names) (main_names ! i)
          = index_of main_names (main_names ! i))
   \<and> merge_names main_names [] = main_names
   \<and> (distinct new_names \<longrightarrow> merge_names [] new_names = new_names)"
proof (intro conjI allI impI)
  show "merge_names main_names new_names
     = main_names @ rev (remdups (rev (filter (\<lambda>n. n \<notin> set main_names) new_names)))"
    by (rule merge_names_append)
  show "length (merge_names main_names new_names)
     = length main_names + card (set new_names - set main_names)"
    by (rule length_merge_names)
  show "merge_names main_names [] = main_names" by simp
next
  fix i assume "i < length main_names"
  then show "merge_names main_names new_names ! i = main_names ! i"
    by (rule merge_names_nth)
next
  fix i assume "i < length main_names"
  then have "main_names ! i \<in> set main_names" by simp
  then show "index_of (merge_names main_names new_names) (main_names ! i)
          = index_of main_names (main_names ! i)"
    by (rule merge_names_index)
next
  assume "distinct new_names"
  then show "merge_names [] new_names = new_names"
    by (simp add: merge_names_append distinct_remdups_id)
qed

theorem merge_names_correct_witness:
  "merge_names [''cat'', ''dog''] [''dog'', ''bird'', ''Cat'', ''bird'']
     = [''cat'', ''dog'', ''bird'', ''Cat'']
   \<and> length (merge_names [''cat'', ''dog''] [''dog'', ''bird'', ''Cat'', ''bird'']) = 2 + 2
   \<and> merge_names [''cat'', ''dog''] [''dog'', ''bird'', ''Cat'', ''bird''] ! 1 = ''dog''
   \<and> index_of (merge_names [''cat'', ''dog''] [''dog'', ''bird'', ''Cat'', ''bird'']) ''dog''
       = Some 1
   \<and> merge_names [] [''dog'', ''bird''] = [''dog'', ''bird'']"
proof -
  note t = merge_names_correct [of "[''cat'', ''dog'']" "[''dog'', ''bird'', ''Cat'', ''bird'']"]
  note u = merge_names_correct [of "[]" "[''dog'', ''bird'']"]
  have c: "card (set [''dog'', ''bird'', ''Cat'', ''bird''] - set [''cat'', ''dog'']) = 2"
  proof -
    have "set [''dog'', ''bird'', ''Cat'', ''bird''] - set [''cat'', ''dog''] = {''bird'', ''Cat''}"
      by auto
    then show ?thesis by simp
  qed
  have i: "(1::nat) < length [''cat'', ''dog'']" by simp
  have d: "distinct [''dog'', ''bird'']" by simp
  from t have t1: "merge_names [''cat'', ''dog''] [''dog'', ''bird'', ''Cat'', ''bird'']
     = [''cat'', ''dog''] @ rev (remdups (rev (filter (\<lambda>n. n \<notin> set [''cat'', ''dog''])
           [''dog'', ''bird'', ''Cat'', ''bird''])))" by (rule conjunct1)
  from t have t2: "length (merge_names [''cat'', ''dog''] [''dog'', ''bird'', ''Cat'', ''bird''])
     = length [''cat'', ''dog''] + card (set [''dog'', ''bird'', ''Cat'', ''bird''] - set [''cat'', ''dog''])"
    by blast
  from t i have t3: "merge_names [''cat'', ''dog''] [''dog'', ''bird'', ''Cat'', ''bird''] ! 1
       = [''cat'', ''dog''] ! 1
     \<and> index_of (merge_names [''cat'', ''dog''] [''dog'', ''bird'', ''Cat'', ''bird''])
         ([''cat'', ''dog''] ! 1) = index_of [''cat'', ''dog''] ([''cat'', ''dog''] ! 1)"
    by blast
  from u d have u1: "merge_names [] [''dog'', ''bird''] = [''dog'', ''bird'']" by blast
  from t1 have "merge_names [''cat'', ''dog''] [''dog'', ''bird'', ''Cat'', ''bird'']
     = [''cat'', ''dog'', ''bird'', ''Cat'']" by simp
  moreover from t2 c have "length (merge_names [''cat'', ''dog''] [''dog'', ''bird'', ''Cat'', ''bird'']) = 2 + 2"
    by simp
  moreover from t3 have "merge_names [''cat'', ''dog''] [''dog'', ''bird'', ''Cat'', ''bird''] ! 1 = ''dog''"
    by simp
  moreover from t3 have "index_of (merge_names [''cat'', ''dog''] [''dog'', ''bird'', ''Cat'', ''bird'']) ''dog''
       = Some 1" by simp
  ultimately show ?thesis using u1 by blast
qed

section \<open>Properties of the remap table\<close>

lemma new_to_merged_total:
  assumes "set new_names \<subseteq> set merged"
  shows "new_to_merged merged new_names
         = Inr (zip (map int [0..<length new_names])
                    (map (\<lambda>x. int (the (index_of merged x))) new_names))"
proof -
  have "list_all (\<lambda>x. index_of merged x \<noteq> None) new_names"
    using assms index_of_mem [of _ merged] by (fastforce simp: list_all_iff)
  then have "those (map (index_of merged) new_names)
             = Some (map (\<lambda>x. the (index_of merged x)) new_names)"
    by (rule those_map_Some)
  then show ?thesis by (simp add: new_to_merged_def comp_def)
qed

text \<open>
  C6. Building the remap table never fails. Its keys are exactly the indices of the
  incoming name list, and index \<open>i\<close> is mapped to the index of the \<open>i\<close>-th
  incoming name in the merged taxonomy. With the main taxonomy cat, dog and the incoming
  taxonomy dog, bird the merged taxonomy is cat, dog, bird, the table maps 0 to 1 and 1 to
  2, and the label line \<^verbatim>\<open>0 0.5 0.5 0.1 0.1\<close> is remapped to
  \<^verbatim>\<open>1 0.5 0.5 0.1 0.1\<close>, in planning and in apply mode.
\<close>

theorem new_to_merged_correct:
  "(\<exists>tbl. new_to_merged (merge_names main_names new_names) new_names = Inr tbl
      \<and> (\<forall>cid. (map_of tbl cid \<noteq> None) = (0 \<le> cid \<and> cid < int (length new_names)))
      \<and> (\<forall>i<length new_names. \<exists>j.
            map_of tbl (int i) = Some (int j)
            \<and> index_of (merge_names main_names new_names) (new_names ! i) = Some j
            \<and> j < length (merge_names main_names new_names)
            \<and> merge_names main_names new_names ! j = new_names ! i))
   \<and> merge_names [''cat'', ''dog''] [''dog'', ''bird''] = [''cat'', ''dog'', ''bird'']
   \<and> new_to_merged (merge_names [''cat'', ''dog''] [''dog'', ''bird'']) [''dog'', ''bird'']
       = Inr [(0, 1), (1, 2)]
   \<and> remap_plan [(0, 1), (1, 2)] 3 src [''0 0.5 0.5 0.1 0.1''] ([], [])
       = ([''1 0.5 0.5 0.1 0.1''], [])
   \<and> remap_apply [(0, 1), (1, 2)] [''0 0.5 0.5 0.1 0.1''] [] = Inr [''1 0.5 0.5 0.1 0.1'']"
proof (intro conjI)
  let ?m = "merge_names main_names new_names"
  let ?tbl = "zip (map int [0..<length new_names])
                  (map (\<lambda>x. int (the (index_of ?m x))) new_names)"
  have sub: "set new_names \<subseteq> set ?m" by (simp add: set_merge_names)
  have eq: "new_to_merged ?m new_names = Inr ?tbl"
    using sub by (rule new_to_merged_total)
  have dom: "(map_of ?tbl cid \<noteq> None) = (0 \<le> cid \<and> cid < int (length new_names))" for cid
    by (rule map_of_zip_upt_dom) simp
  have ent: "\<exists>j. map_of ?tbl (int i) = Some (int j)
            \<and> index_of ?m (new_names ! i) = Some j
            \<and> j < length ?m \<and> ?m ! j = new_names ! i" if i: "i < length new_names" for i
  proof -
    from i sub have "new_names ! i \<in> set ?m" by (meson nth_mem subsetD)
    then obtain j where j: "index_of ?m (new_names ! i) = Some j"
      using index_of_mem by fastforce
    have "map_of ?tbl (int i) = Some (map (\<lambda>x. int (the (index_of ?m x))) new_names ! i)"
      using i by (intro map_of_zip_upt) simp_all
    with i j have "map_of ?tbl (int i) = Some (int j)" by simp
    moreover from j have "j < length ?m \<and> ?m ! j = new_names ! i"
      by (simp add: index_of_Some_iff)
    ultimately show ?thesis using j by blast
  qed
  show "\<exists>tbl. new_to_merged ?m new_names = Inr tbl
      \<and> (\<forall>cid. (map_of tbl cid \<noteq> None) = (0 \<le> cid \<and> cid < int (length new_names)))
      \<and> (\<forall>i<length new_names. \<exists>j.
            map_of tbl (int i) = Some (int j)
            \<and> index_of ?m (new_names ! i) = Some j
            \<and> j < length ?m \<and> ?m ! j = new_names ! i)"
    using eq dom ent by blast
  show "merge_names [''cat'', ''dog''] [''dog'', ''bird''] = [''cat'', ''dog'', ''bird'']"
    by simp
  show "new_to_merged (merge_names [''cat'', ''dog''] [''dog'', ''bird'']) [''dog'', ''bird'']
       = Inr [(0, 1), (1, 2)]"
    by (simp add: new_to_merged_def upt_rec)
  show "remap_plan [(0, 1), (1, 2)] 3 src [''0 0.5 0.5 0.1 0.1''] ([], [])
       = ([''1 0.5 0.5 0.1 0.1''], [])"
    by (simp add: split_ws_def isspace_def py_int_def strip_def isdigit_def digit_val_def
          str_int_def str_nat.simps digit_char_def)
  show "remap_apply [(0, 1), (1, 2)] [''0 0.5 0.5 0.1 0.1''] [] = Inr [''1 0.5 0.5 0.1 0.1'']"
    by (simp add: split_ws_def isspace_def py_int_def strip_def isdigit_def digit_val_def
          str_int_def str_nat.simps digit_char_def)
qed

theorem new_to_merged_correct_witness:
  "\<exists>tbl. new_to_merged (merge_names [''cat'', ''dog''] [''dog'', ''bird'']) [''dog'', ''bird'']
           = Inr tbl
         \<and> map_of tbl 1 = Some 2
         \<and> index_of (merge_names [''cat'', ''dog''] [''dog'', ''bird'']) ''bird'' = Some 2"
proof -
  from new_to_merged_correct [of "[''cat'', ''dog'']" "[''dog'', ''bird'']"]
  obtain tbl where t: "new_to_merged (merge_names [''cat'', ''dog''] [''dog'', ''bird''])
        [''dog'', ''bird''] = Inr tbl"
    and e: "\<forall>i<length [''dog'', ''bird'']. \<exists>j.
            map_of tbl (int i) = Some (int j)
            \<and> index_of (merge_names [''cat'', ''dog''] [''dog'', ''bird''])
                 ([''dog'', ''bird''] ! i) = Some j
            \<and> j < length (merge_names [''cat'', ''dog''] [''dog'', ''bird''])
            \<and> merge_names [''cat'', ''dog''] [''dog'', ''bird''] ! j = [''dog'', ''bird''] ! i"
    by blast
  have "(1::nat) < length [''dog'', ''bird'']" by simp
  with e obtain j where j: "map_of tbl (int 1) = Some (int j)"
      "index_of (merge_names [''cat'', ''dog''] [''dog'', ''bird'']) ([''dog'', ''bird''] ! 1) = Some j"
    by blast
  from j(2) have "j = 2" by simp
  with j t show ?thesis by simp
qed

section \<open>Properties of the placement resolver\<close>

lemma unique_name_least:
  "\<exists>j. unique_name fs d stem ext name k
         = (if j = 0 then name else ''new_'' @ stem @ ''_'' @ str_nat (k + j - 1) @ ext)
       \<and> \<not> path_exists fs (d @ [unique_name fs d stem ext name k])
       \<and> (\<forall>i<j. path_exists fs
              (d @ [if i = 0 then name else ''new_'' @ stem @ ''_'' @ str_nat (k + i - 1) @ ext]))"
proof (induction fs d stem ext name k rule: unique_name.induct)
  case (1 fs d stem ext name k)
  let ?num = "\<lambda>i. ''new_'' @ stem @ ''_'' @ str_nat i @ ext"
  show ?case
  proof (cases "path_exists fs (d @ [name])")
    case False
    then have "unique_name fs d stem ext name k = name"
      by (subst unique_name.simps) simp
    with False show ?thesis by (intro exI [of _ 0]) simp
  next
    case True
    then have u: "unique_name fs d stem ext name k = unique_name fs d stem ext (?num k) (k + 1)"
      by (subst unique_name.simps) simp
    from 1 [OF True] obtain j where
      r: "unique_name fs d stem ext (?num k) (k + 1)
          = (if j = 0 then ?num k else ?num (k + 1 + j - 1))"
      and f: "\<not> path_exists fs (d @ [unique_name fs d stem ext (?num k) (k + 1)])"
      and t: "\<forall>i<j. path_exists fs (d @ [if i = 0 then ?num k else ?num (k + 1 + i - 1)])"
      by blast
    have "unique_name fs d stem ext name k
          = (if Suc j = 0 then name else ?num (k + Suc j - 1))"
      using u r by (cases "j = 0") simp_all
    moreover have "\<not> path_exists fs (d @ [unique_name fs d stem ext name k])"
      using u f by simp
    moreover have "\<forall>i<Suc j. path_exists fs (d @ [if i = 0 then name else ?num (k + i - 1)])"
    proof (intro allI impI)
      fix i assume i: "i < Suc j"
      show "path_exists fs (d @ [if i = 0 then name else ?num (k + i - 1)])"
      proof (cases i)
        case 0
        with True show ?thesis by simp
      next
        case (Suc i')
        with i have "i' < j" by simp
        with t have "path_exists fs (d @ [if i' = 0 then ?num k else ?num (k + 1 + i' - 1)])"
          by blast
        with Suc show ?thesis by (cases "i' = 0") simp_all
      qed
    qed
    ultimately show ?thesis by blast
  qed
qed

lemma unique_name_candidate:
  "\<exists>k. unique_name fs d (fst (splitext f)) (snd (splitext f)) (''new_'' @ f) 1 = candidate f k
       \<and> \<not> path_exists fs (d @ [candidate f k])
       \<and> (\<forall>j<k. path_exists fs (d @ [candidate f j]))"
proof -
  from unique_name_least [of fs d "fst (splitext f)" "snd (splitext f)" "''new_'' @ f" 1]
  obtain j where
    r: "unique_name fs d (fst (splitext f)) (snd (splitext f)) (''new_'' @ f) 1
        = (if j = 0 then ''new_'' @ f
           else ''new_'' @ fst (splitext f) @ ''_'' @ str_nat (1 + j - 1) @ snd (splitext f))"
    and n: "\<not> path_exists fs
              (d @ [unique_name fs d (fst (splitext f)) (snd (splitext f)) (''new_'' @ f) 1])"
    and t: "\<forall>i<j. path_exists fs (d @ [if i = 0 then ''new_'' @ f
           else ''new_'' @ fst (splitext f) @ ''_'' @ str_nat (1 + i - 1) @ snd (splitext f)])"
    by blast
  from r have r': "unique_name fs d (fst (splitext f)) (snd (splitext f)) (''new_'' @ f) 1
                   = candidate f j"
    by (simp add: candidate_def)
  moreover from n r' have "\<not> path_exists fs (d @ [candidate f j])" by simp
  moreover have "\<forall>i<j. path_exists fs (d @ [candidate f i])"
  proof (intro allI impI)
    fix i assume "i < j"
    with t have "path_exists fs (d @ [if i = 0 then ''new_'' @ f
           else ''new_'' @ fst (splitext f) @ ''_'' @ str_nat (1 + i - 1) @ snd (splitext f)])"
      by blast
    then show "path_exists fs (d @ [candidate f i])"
      by (cases "i = 0") (simp_all add: candidate_def)
  qed
  ultimately show ?thesis by blast
qed

lemma plan_image_op:
  assumes "plan_image tbl n nid nld mid mld img w = (Inr op, w1)"
  shows "src_img op = nid @ [img]"
    and "dst_img op = mid @ [unique_name (files w) mid (fst (splitext img)) (snd (splitext img))
                               (''new_'' @ img) 1]"
    and "dst_lbl op = (if path_exists (files w) (nld @ [fst (splitext img) @ ''.txt''])
                       then Some (mld @ [fst (splitext (last (dst_img op))) @ ''.txt''])
                       else None)"
    and "src_lbl op = (if path_exists (files w) (nld @ [fst (splitext img) @ ''.txt''])
                       then Some (nld @ [fst (splitext img) @ ''.txt'']) else None)"
  using assms by (auto simp: plan_image_def Let_def split: if_splits sum.splits)

lemma plan_image_result:
  assumes u: "unique_name (files w) mid (fst (splitext img)) (snd (splitext img))
                (''new_'' @ img) 1 = dst_img_name"
  shows "stat (files w) (nld @ [fst (splitext img) @ ''.txt'']) = None \<Longrightarrow>
           plan_image tbl n nid nld mid mld img w
           = (Inr \<lparr>src_img = nid @ [img], dst_img = mid @ [dst_img_name],
                    src_lbl = None, dst_lbl = None\<rparr>, w)"
    and "stat (files w) (nld @ [fst (splitext img) @ ''.txt'']) = Some (File c) \<Longrightarrow>
         utf8_valid c \<Longrightarrow>
           plan_image tbl n nid nld mid mld img w
           = (Inr \<lparr>src_img = nid @ [img], dst_img = mid @ [dst_img_name],
                    src_lbl = Some (nld @ [fst (splitext img) @ ''.txt'']),
                    dst_lbl = Some (mld @ [fst (splitext dst_img_name) @ ''.txt''])\<rparr>,
              w\<lparr>printed := printed w
                   @ snd (remap_plan tbl n (nld @ [fst (splitext img) @ ''.txt''])
                            (label_lines c) ([], []))\<rparr>)"
  using u
  by (simp_all add: plan_image_def Let_def path_exists_def read_text_def read_bytes_def)

text \<open>
  C7. For every incoming file name the resolver returns the first free name of the
  sequence \<^verbatim>\<open>new_<filename>\<close>, \<^verbatim>\<open>new_<stem>_1<ext>\<close>, \<^verbatim>\<open>new_<stem>_2<ext>\<close>, ...:
  the name it returns is free in the destination directory and every earlier name of the
  sequence is taken. It always returns, since a directory has finitely many entries.
  Planning an image gives an operation with this name as image destination whenever the
  incoming label path is absent or is a text file: without label file the operation has no
  label destination, with one the label destination is the stem of the resolved image
  name followed by \<^verbatim>\<open>.txt\<close>. No operation that planning returns has another label
  destination. For \<^verbatim>\<open>img.jpg\<close> with \<^verbatim>\<open>new_img.jpg\<close> taken and \<^verbatim>\<open>new_img_1.jpg\<close>
  free the name is \<^verbatim>\<open>new_img_1.jpg\<close>.
\<close>

theorem placement_resolver:
  "(\<exists>k. unique_name fs d (fst (splitext f)) (snd (splitext f)) (''new_'' @ f) 1 = candidate f k
       \<and> \<not> path_exists fs (d @ [candidate f k])
       \<and> (\<forall>j<k. path_exists fs (d @ [candidate f j])))
   \<and> (\<exists>k. \<not> path_exists (files w) (mid @ [candidate img k])
       \<and> (\<forall>j<k. path_exists (files w) (mid @ [candidate img j]))
       \<and> (stat (files w) (nld @ [fst (splitext img) @ ''.txt'']) = None \<longrightarrow>
            plan_image tbl n nid nld mid mld img w
            = (Inr \<lparr>src_img = nid @ [img], dst_img = mid @ [candidate img k],
                     src_lbl = None, dst_lbl = None\<rparr>, w))
       \<and> (\<forall>c. stat (files w) (nld @ [fst (splitext img) @ ''.txt'']) = Some (File c)
                \<and> utf8_valid c \<longrightarrow>
            (\<exists>warnings. plan_image tbl n nid nld mid mld img w
            = (Inr \<lparr>src_img = nid @ [img], dst_img = mid @ [candidate img k],
                     src_lbl = Some (nld @ [fst (splitext img) @ ''.txt'']),
                     dst_lbl = Some (mld @ [fst (splitext (candidate img k)) @ ''.txt''])\<rparr>,
               w\<lparr>printed := printed w @ warnings\<rparr>))))
   \<and> (plan_image tbl n nid nld mid mld img w = (Inr op, w1) \<longrightarrow>
        dst_img op = mid @ [unique_name (files w) mid (fst (splitext img)) (snd (splitext img))
                              (''new_'' @ img) 1]
        \<and> dst_lbl op = (if path_exists (files w) (nld @ [fst (splitext img) @ ''.txt''])
                         then Some (mld @ [fst (splitext (last (dst_img op))) @ ''.txt''])
                         else None))
   \<and> (path_exists fs (d @ [''new_img.jpg'']) \<and> \<not> path_exists fs (d @ [''new_img_1.jpg''])
        \<longrightarrow> unique_name fs d (fst (splitext ''img.jpg'')) (snd (splitext ''img.jpg''))
              (''new_'' @ ''img.jpg'') 1 = ''new_img_1.jpg'')"
proof (intro conjI impI)
  show "\<exists>k. unique_name fs d (fst (splitext f)) (snd (splitext f)) (''new_'' @ f) 1 = candidate f k
       \<and> \<not> path_exists fs (d @ [candidate f k])
       \<and> (\<forall>j<k. path_exists fs (d @ [candidate f j]))"
    by (rule unique_name_candidate)
next
  let ?sl = "nld @ [fst (splitext img) @ ''.txt'']"
  from unique_name_candidate [of "files w" mid img] obtain k
    where u: "unique_name (files w) mid (fst (splitext img)) (snd (splitext img))
                (''new_'' @ img) 1 = candidate img k"
      and free: "\<not> path_exists (files w) (mid @ [candidate img k])"
      and taken: "\<forall>j<k. path_exists (files w) (mid @ [candidate img j])"
    by (elim exE conjE)
  have a: "stat (files w) ?sl = None \<longrightarrow>
            plan_image tbl n nid nld mid mld img w
            = (Inr \<lparr>src_img = nid @ [img], dst_img = mid @ [candidate img k],
                     src_lbl = None, dst_lbl = None\<rparr>, w)"
  proof
    assume "stat (files w) ?sl = None"
    then show "plan_image tbl n nid nld mid mld img w
            = (Inr \<lparr>src_img = nid @ [img], dst_img = mid @ [candidate img k],
                     src_lbl = None, dst_lbl = None\<rparr>, w)"
      by (rule plan_image_result(1) [OF u])
  qed
  have b: "\<forall>c. stat (files w) ?sl = Some (File c) \<and> utf8_valid c \<longrightarrow>
            (\<exists>warnings. plan_image tbl n nid nld mid mld img w
            = (Inr \<lparr>src_img = nid @ [img], dst_img = mid @ [candidate img k],
                     src_lbl = Some ?sl,
                     dst_lbl = Some (mld @ [fst (splitext (candidate img k)) @ ''.txt''])\<rparr>,
               w\<lparr>printed := printed w @ warnings\<rparr>))"
  proof (intro allI impI)
    fix c
    assume h: "stat (files w) ?sl = Some (File c) \<and> utf8_valid c"
    from h have h1: "stat (files w) ?sl = Some (File c)" by (rule conjunct1)
    from h have h2: "utf8_valid c" by (rule conjunct2)
    from plan_image_result(2) [OF u h1 h2]
    show "\<exists>warnings. plan_image tbl n nid nld mid mld img w
            = (Inr \<lparr>src_img = nid @ [img], dst_img = mid @ [candidate img k],
                     src_lbl = Some ?sl,
                     dst_lbl = Some (mld @ [fst (splitext (candidate img k)) @ ''.txt''])\<rparr>,
               w\<lparr>printed := printed w @ warnings\<rparr>)"
      by (rule exI)
  qed
  show "\<exists>k. \<not> path_exists (files w) (mid @ [candidate img k])
       \<and> (\<forall>j<k. path_exists (files w) (mid @ [candidate img j]))
       \<and> (stat (files w) ?sl = None \<longrightarrow>
            plan_image tbl n nid nld mid mld img w
            = (Inr \<lparr>src_img = nid @ [img], dst_img = mid @ [candidate img k],
                     src_lbl = None, dst_lbl = None\<rparr>, w))
       \<and> (\<forall>c. stat (files w) ?sl = Some (File c) \<and> utf8_valid c \<longrightarrow>
            (\<exists>warnings. plan_image tbl n nid nld mid mld img w
            = (Inr \<lparr>src_img = nid @ [img], dst_img = mid @ [candidate img k],
                     src_lbl = Some ?sl,
                     dst_lbl = Some (mld @ [fst (splitext (candidate img k)) @ ''.txt''])\<rparr>,
               w\<lparr>printed := printed w @ warnings\<rparr>)))"
    using free taken a b by (intro exI [of _ k] conjI)
next
  assume "plan_image tbl n nid nld mid mld img w = (Inr op, w1)"
  then show "dst_img op = mid @ [unique_name (files w) mid (fst (splitext img))
                                   (snd (splitext img)) (''new_'' @ img) 1]"
    by (rule plan_image_op)
next
  assume "plan_image tbl n nid nld mid mld img w = (Inr op, w1)"
  then show "dst_lbl op = (if path_exists (files w) (nld @ [fst (splitext img) @ ''.txt''])
                         then Some (mld @ [fst (splitext (last (dst_img op))) @ ''.txt''])
                         else None)"
    by (rule plan_image_op)
next
  assume a: "path_exists fs (d @ [''new_img.jpg'']) \<and> \<not> path_exists fs (d @ [''new_img_1.jpg''])"
  have s: "splitext ''img.jpg'' = (''img'', ''.jpg'')" by (simp add: splitext_def)
  have "unique_name fs d ''img'' ''.jpg'' ''new_img.jpg'' 1
        = unique_name fs d ''img'' ''.jpg'' ''new_img_1.jpg'' (1 + 1)"
    using a by (subst unique_name.simps) (simp add: str_nat.simps digit_char_def)
  also have "\<dots> = ''new_img_1.jpg''"
    using a by (subst unique_name.simps) simp
  finally show "unique_name fs d (fst (splitext ''img.jpg'')) (snd (splitext ''img.jpg''))
              (''new_'' @ ''img.jpg'') 1 = ''new_img_1.jpg''"
    by (simp add: s)
qed

theorem placement_resolver_witness:
  "unique_name workspace_taken_name [''train'', ''images'']
     (fst (splitext ''img.jpg'')) (snd (splitext ''img.jpg'')) (''new_'' @ ''img.jpg'') 1
   = ''new_img_1.jpg''
   \<and> (\<exists>warnings.
        plan_image [(0, 1), (1, 2)] 3 [''new'', ''train'', ''images''] [''new'', ''train'', ''labels'']
          [''train'', ''images''] [''train'', ''labels''] ''img.jpg''
          \<lparr>files = workspace_taken_name, printed = []\<rparr>
        = (Inr \<lparr>src_img = [''new'', ''train'', ''images'', ''img.jpg''],
                 dst_img = [''train'', ''images'', ''new_img_1.jpg''],
                 src_lbl = Some [''new'', ''train'', ''labels'', ''img.txt''],
                 dst_lbl = Some [''train'', ''labels'', ''new_img_1.txt'']\<rparr>,
           \<lparr>files = workspace_taken_name, printed = warnings\<rparr>))
   \<and> plan_image [(0, 1), (1, 2)] 3 [''new'', ''train'', ''images''] [''new'', ''train'', ''labels'']
        [''train'', ''images''] [''train'', ''labels''] ''b.png''
        \<lparr>files = workspace_taken_name, printed = []\<rparr>
      = (Inr \<lparr>src_img = [''new'', ''train'', ''images'', ''b.png''],
               dst_img = [''train'', ''images'', ''new_b.png''],
               src_lbl = None, dst_lbl = None\<rparr>,
         \<lparr>files = workspace_taken_name, printed = []\<rparr>)"
proof -
  let ?w = "\<lparr>files = workspace_taken_name, printed = []\<rparr>"
  let ?mid = "[''train'', ''images'']"
  let ?mld = "[''train'', ''labels'']"
  let ?nid = "[''new'', ''train'', ''images'']"
  let ?nld = "[''new'', ''train'', ''labels'']"
  let ?tbl = "[(0, 1), (1, 2)] :: remap_table"
  have fw: "files ?w = workspace_taken_name" by simp
  have h: "path_exists workspace_taken_name (?mid @ [''new_img.jpg''])
           \<and> \<not> path_exists workspace_taken_name (?mid @ [''new_img_1.jpg''])"
    by code_simp
  have c0: "candidate ''img.jpg'' 0 = ''new_img.jpg''" by code_simp
  have c1: "candidate ''img.jpg'' 1 = ''new_img_1.jpg''" by code_simp
  then have c1': "candidate ''img.jpg'' (Suc 0) = ''new_img_1.jpg''" by simp
  have s1: "fst (splitext ''img.jpg'') = ''img''" by code_simp
  have s2: "fst (splitext ''new_img_1.jpg'') = ''new_img_1''" by code_simp
  have b0: "candidate ''b.png'' 0 = ''new_b.png''" by code_simp
  have lbl: "stat workspace_taken_name (?nld @ [fst (splitext ''img.jpg'') @ ''.txt''])
               = Some (File (''0 0.5 0.5 0.1 0.1'' @ [CHR 0x0A]))
             \<and> utf8_valid (''0 0.5 0.5 0.1 0.1'' @ [CHR 0x0A])"
    by code_simp
  have nolbl: "stat workspace_taken_name (?nld @ [fst (splitext ''b.png'') @ ''.txt'']) = None"
    by code_simp
  have freeb: "\<not> path_exists workspace_taken_name (?mid @ [''new_b.png''])"
    by code_simp

  note example = placement_resolver
    [where fs = workspace_taken_name and d = ?mid,
     THEN conjunct2, THEN conjunct2, THEN conjunct2]
  from example h have first: "unique_name workspace_taken_name ?mid
          (fst (splitext ''img.jpg'')) (snd (splitext ''img.jpg'')) (''new_'' @ ''img.jpg'') 1
        = ''new_img_1.jpg''"
    by (rule mp)

  note img = placement_resolver
    [where w = ?w and mid = ?mid and img = "''img.jpg''" and nld = ?nld and tbl = ?tbl
       and n = 3 and nid = ?nid and mld = ?mld,
     THEN conjunct2, THEN conjunct1, unfolded fw]
  from img obtain k
    where free: "\<not> path_exists workspace_taken_name (?mid @ [candidate ''img.jpg'' k])"
      and taken: "\<forall>j<k. path_exists workspace_taken_name (?mid @ [candidate ''img.jpg'' j])"
      and res: "\<forall>c. stat workspace_taken_name (?nld @ [fst (splitext ''img.jpg'') @ ''.txt''])
                    = Some (File c) \<and> utf8_valid c \<longrightarrow>
            (\<exists>warnings. plan_image ?tbl 3 ?nid ?nld ?mid ?mld ''img.jpg'' ?w
            = (Inr \<lparr>src_img = ?nid @ [''img.jpg''],
                     dst_img = ?mid @ [candidate ''img.jpg'' k],
                     src_lbl = Some (?nld @ [fst (splitext ''img.jpg'') @ ''.txt'']),
                     dst_lbl = Some (?mld @ [fst (splitext (candidate ''img.jpg'' k)) @ ''.txt''])\<rparr>,
               ?w\<lparr>printed := printed ?w @ warnings\<rparr>))"
    by (elim exE conjE)
  have k0: "k \<noteq> 0"
  proof
    assume "k = 0"
    with free have "\<not> path_exists workspace_taken_name (?mid @ [candidate ''img.jpg'' 0])"
      by simp
    with h show False by (simp add: c0)
  qed
  have k1: "\<not> 1 < k"
  proof
    assume "1 < k"
    with taken have "path_exists workspace_taken_name (?mid @ [candidate ''img.jpg'' 1])"
      by blast
    with h show False by (simp add: c1')
  qed
  from k0 k1 have k: "k = 1" by arith
  from res [rule_format, OF lbl] obtain warnings
    where r: "plan_image ?tbl 3 ?nid ?nld ?mid ?mld ''img.jpg'' ?w
            = (Inr \<lparr>src_img = ?nid @ [''img.jpg''],
                     dst_img = ?mid @ [candidate ''img.jpg'' k],
                     src_lbl = Some (?nld @ [fst (splitext ''img.jpg'') @ ''.txt'']),
                     dst_lbl = Some (?mld @ [fst (splitext (candidate ''img.jpg'' k)) @ ''.txt''])\<rparr>,
               ?w\<lparr>printed := printed ?w @ warnings\<rparr>)"
    by (elim exE)
  have second: "\<exists>warnings.
        plan_image ?tbl 3 ?nid ?nld ?mid ?mld ''img.jpg'' ?w
        = (Inr \<lparr>src_img = [''new'', ''train'', ''images'', ''img.jpg''],
                 dst_img = [''train'', ''images'', ''new_img_1.jpg''],
                 src_lbl = Some [''new'', ''train'', ''labels'', ''img.txt''],
                 dst_lbl = Some [''train'', ''labels'', ''new_img_1.txt'']\<rparr>,
           \<lparr>files = workspace_taken_name, printed = warnings\<rparr>)"
    by (rule exI [of _ warnings]) (simp add: r k c1' s1 s2)

  note png = placement_resolver
    [where w = ?w and mid = ?mid and img = "''b.png''" and nld = ?nld and tbl = ?tbl
       and n = 3 and nid = ?nid and mld = ?mld,
     THEN conjunct2, THEN conjunct1, unfolded fw]
  from png obtain m
    where takenb: "\<forall>j<m. path_exists workspace_taken_name (?mid @ [candidate ''b.png'' j])"
      and resb: "stat workspace_taken_name (?nld @ [fst (splitext ''b.png'') @ ''.txt'']) = None
            \<longrightarrow> plan_image ?tbl 3 ?nid ?nld ?mid ?mld ''b.png'' ?w
            = (Inr \<lparr>src_img = ?nid @ [''b.png''],
                     dst_img = ?mid @ [candidate ''b.png'' m],
                     src_lbl = None, dst_lbl = None\<rparr>, ?w)"
    by (elim exE conjE)
  have m: "m = 0"
  proof (rule ccontr)
    assume "m \<noteq> 0"
    then have "0 < m" by simp
    with takenb have "path_exists workspace_taken_name (?mid @ [candidate ''b.png'' 0])"
      by blast
    with freeb show False by (simp add: b0)
  qed
  from resb nolbl have "plan_image ?tbl 3 ?nid ?nld ?mid ?mld ''b.png'' ?w
            = (Inr \<lparr>src_img = ?nid @ [''b.png''],
                     dst_img = ?mid @ [candidate ''b.png'' m],
                     src_lbl = None, dst_lbl = None\<rparr>, ?w)"
    by (rule mp)
  then have third: "plan_image ?tbl 3 ?nid ?nld ?mid ?mld ''b.png'' ?w
      = (Inr \<lparr>src_img = [''new'', ''train'', ''images'', ''b.png''],
               dst_img = [''train'', ''images'', ''new_b.png''],
               src_lbl = None, dst_lbl = None\<rparr>, ?w)"
    by (simp add: m b0)
  from first second third show ?thesis by (intro conjI)
qed

section \<open>Properties of the planning pass\<close>

lemma remap_plan_step:
  assumes "5 \<le> length (split_ws ln)" and "py_int (hd (split_ws ln)) = Some cid"
    and "map_of tbl cid = None"
  shows "remap_plan tbl n src (ln # lns) (remapped, out)
         = remap_plan tbl n src lns
             (if cid < int n
              then (remapped @ [join '' '' (str_int cid # tl (split_ws ln))], out)
              else (remapped, out @ [Cannot_map_class_id cid src]))"
  using assms by (simp add: Let_def)

lemma main_without_new_descriptor:
  assumes "isfile (files w) [''data.yaml'']" and "isdir (files w) [''new'']"
    and "\<not> isfile (files w) [''new'', ''data.yaml'']"
    and "load_yaml yaml (files w) [''data.yaml''] = Inr main_cfg"
    and "get_names main_cfg = Inr main_names"
  shows "main dry_run yaml w
         = io_bind (plan_all [] (length main_names))
             (\<lambda>planned_ops. if dry_run then (\<lambda>w1. (Inr 0, w1))
                else apply_changes yaml [] main_cfg main_names planned_ops) w"
proof -
  have "get_names [] = Inr []" by (simp add: get_names_def)
  with assms show ?thesis by (simp add: main_def new_to_merged_def cong: if_cong)
qed

section \<open>What a dry run leaves unchanged\<close>

lemma dirs_added_refl: "dirs_added fs fs"
  by (simp add: dirs_added_def)

lemma dirs_added_trans:
  assumes "dirs_added fs1 fs2" and "dirs_added fs2 fs3"
  shows "dirs_added fs1 fs3"
  unfolding dirs_added_def
proof
  fix q
  from assms have a: "stat fs2 q = stat fs1 q \<or> (stat fs1 q = None \<and> stat fs2 q = Some Dir)"
    and b: "stat fs3 q = stat fs2 q \<or> (stat fs2 q = None \<and> stat fs3 q = Some Dir)"
    by (simp_all add: dirs_added_def)
  then show "stat fs3 q = stat fs1 q \<or> (stat fs1 q = None \<and> stat fs3 q = Some Dir)"
    by auto
qed

lemma stat_update:
  "p \<noteq> [] \<Longrightarrow> stat (AList.update p n fs) q = (if q = p then Some n else stat fs q)"
  by (simp add: stat_def update_conv')

lemma mkdir_dirs_added:
  assumes "mkdir fs p = Inr fs1"
  shows "dirs_added fs fs1"
proof -
  from assms have ne: "\<not> path_exists fs p" and fs1: "fs1 = AList.update p Dir fs"
    by (auto simp: mkdir_def split: if_splits option.splits node.splits)
  from ne have p: "p \<noteq> []" "stat fs p = None"
    by (auto simp: path_exists_def stat_def)
  show ?thesis
    unfolding dirs_added_def fs1 using p by (simp add: stat_update)
qed

lemma makedirs_dirs_added:
  "makedirs fs p = Inr fs1 \<Longrightarrow> dirs_added fs fs1"
proof (induction fs p arbitrary: fs1 rule: makedirs.induct)
  case (1 fs p)
  let ?c = "p \<noteq> [] \<and> \<not> path_exists fs (butlast p)"
  obtain r where r: "r = (if ?c then (case makedirs fs (butlast p) of
                    Inl e \<Rightarrow> if e = FileExistsError then Inr fs else Inl e
                  | Inr fs2 \<Rightarrow> Inr fs2) else Inr fs)"
    by simp
  from "1.prems" r obtain fs2 where fs2: "r = Inr fs2"
    and m: "(case mkdir fs2 p of Inl e \<Rightarrow> if isdir fs2 p then Inr fs2 else Inl e
             | Inr fs3 \<Rightarrow> Inr fs3) = Inr fs1"
    by (subst (asm) makedirs.simps) (auto split: sum.splits)
  have a: "dirs_added fs fs2"
  proof (cases ?c)
    case False
    with r fs2 show ?thesis by (simp add: dirs_added_refl)
  next
    case True
    show ?thesis
    proof (cases "makedirs fs (butlast p)")
      case (Inl e)
      with True r fs2 have "fs2 = fs" by (auto split: if_splits)
      then show ?thesis by (simp add: dirs_added_refl)
    next
      case (Inr fs')
      with True r fs2 have "fs2 = fs'" by simp
      with "1.IH" [OF True Inr] show ?thesis by simp
    qed
  qed
  have b: "dirs_added fs2 fs1"
  proof (cases "mkdir fs2 p")
    case (Inl e)
    with m have "fs1 = fs2" by (auto split: if_splits)
    then show ?thesis by (simp add: dirs_added_refl)
  next
    case (Inr fs3)
    with m have "fs1 = fs3" by simp
    with Inr show ?thesis by (simp add: mkdir_dirs_added)
  qed
  from a b show ?case by (rule dirs_added_trans)
qed

lemma ensure_dir_io:
  assumes "on_fs (\<lambda>f. ensure_dir f d) w = (r, w1)"
  shows "dirs_added (files w) (files w1) \<and> printed w1 = printed w"
proof (cases "ensure_dir (files w) d")
  case (Inl e)
  with assms have "w1 = w" by (simp add: on_fs_def)
  then show ?thesis by (simp add: dirs_added_refl)
next
  case (Inr fs1)
  with assms have w1: "w1 = w\<lparr>files := fs1\<rparr>" by (simp add: on_fs_def)
  from Inr have "dirs_added (files w) fs1"
    by (auto simp: ensure_dir_def dirs_added_refl makedirs_dirs_added split: if_splits)
  with w1 show ?thesis by simp
qed

lemma plan_image_files:
  "plan_image tbl n nid nld mid mld img w = (r, w1) \<Longrightarrow> files w1 = files w"
  by (auto simp: plan_image_def Let_def split: if_splits sum.splits)

lemma for_each_invariant:
  assumes step: "\<And>x w y w1. I w \<Longrightarrow> body x w = (y, w1) \<Longrightarrow> I w1"
    and "I w" and "for_each body xs w = (r, w1)"
  shows "I w1"
  using assms(2,3)
proof (induction xs arbitrary: w r)
  case Nil
  then show ?case by simp
next
  case (Cons x xs)
  obtain y w2 where b: "body x w = (y, w2)" by (cases "body x w")
  with Cons.prems(1) have i2: "I w2" by (rule step)
  show ?case
  proof (cases y)
    case (Inl e)
    with b Cons.prems(2) have "w1 = w2" by simp
    with i2 show ?thesis by simp
  next
    case (Inr v)
    obtain r2 w3 where f: "for_each body xs w2 = (r2, w3)" by (cases "for_each body xs w2")
    with b Inr Cons.prems(2) have "w1 = w3" by (auto split: sum.splits)
    with f have "for_each body xs w2 = (r2, w1)" by simp
    with i2 show ?thesis by (rule Cons.IH)
  qed
qed

lemma for_each_results:
  assumes step: "\<And>x w y w1. I w \<Longrightarrow> body x w = (Inr y, w1) \<Longrightarrow> I w1 \<and> P y"
    and "I w" and "for_each body xs w = (Inr ys, w1)"
  shows "list_all P ys"
  using assms(2,3)
proof (induction xs arbitrary: w ys)
  case Nil
  then show ?case by simp
next
  case (Cons x xs)
  from Cons.prems(2) obtain y w2 ys2 where b: "body x w = (Inr y, w2)"
    and f: "for_each body xs w2 = (Inr ys2, w1)" and ys: "ys = y # ys2"
    by (auto split: sum.splits prod.splits)
  from step [OF Cons.prems(1) b] have i2: "I w2" and py: "P y" by simp_all
  from i2 f have "list_all P ys2" by (rule Cons.IH)
  with py ys show ?case by simp
qed

lemma plan_subset_dirs_added:
  assumes "plan_subset tbl n sub w = (r, w1)"
  shows "dirs_added (files w) (files w1)"
proof (cases "isdir (files w) [''new'', sub, ''images'']")
  case False
  with assms have "w1 = w" by (simp add: plan_subset_def)
  then show ?thesis by (simp add: dirs_added_refl)
next
  case True
  obtain r2 w2 where e1: "on_fs (\<lambda>f. ensure_dir f [sub, ''images'']) w = (r2, w2)"
    by (cases "on_fs (\<lambda>f. ensure_dir f [sub, ''images'']) w")
  then have d1: "dirs_added (files w) (files w2)" by (simp add: ensure_dir_io)
  show ?thesis
  proof (cases r2)
    case (Inl e)
    with assms True e1 have "w1 = w2" by (simp add: plan_subset_def io_bind_def)
    with d1 show ?thesis by simp
  next
    case (Inr u)
    obtain r3 w3 where e2: "on_fs (\<lambda>f. ensure_dir f [sub, ''labels'']) w2 = (r3, w3)"
      by (cases "on_fs (\<lambda>f. ensure_dir f [sub, ''labels'']) w2")
    then have d2: "dirs_added (files w2) (files w3)" by (simp add: ensure_dir_io)
    from d1 d2 have d3: "dirs_added (files w) (files w3)" by (rule dirs_added_trans)
    show ?thesis
    proof (cases r3)
      case (Inl e)
      with assms True e1 e2 Inr have "w1 = w3" by (simp add: plan_subset_def io_bind_def)
      with d3 show ?thesis by simp
    next
      case (Inr u2)
      with assms True e1 e2 \<open>r2 = Inr u\<close>
      have f: "for_each
            (plan_image tbl n [''new'', sub, ''images''] [''new'', sub, ''labels'']
               [sub, ''images''] [sub, ''labels''])
            (list_files (files w3) [''new'', sub, ''images''] [''new'', sub, ''labels''])
            w3 = (r, w1)"
        by (simp add: plan_subset_def io_bind_def)
      have "files w1 = files w3"
        by (rule for_each_invariant [where I = "\<lambda>v. files v = files w3", OF _ _ f])
           (simp_all add: plan_image_files)
      with d3 show ?thesis by simp
    qed
  qed
qed

lemma plan_all_dirs_added:
  assumes "plan_all tbl n w = (r, w1)"
  shows "dirs_added (files w) (files w1)"
proof -
  obtain r2 w2 where f: "for_each (plan_subset tbl n) [''train'', ''valid'', ''test''] w = (r2, w2)"
    by (cases "for_each (plan_subset tbl n) [''train'', ''valid'', ''test''] w")
  with assms have "w1 = w2"
    by (auto simp: plan_all_def io_bind_def split: sum.splits)
  moreover have "dirs_added (files w) (files w2)"
  proof (rule for_each_invariant [where I = "\<lambda>v. dirs_added (files w) (files v)", OF _ _ f])
    show "dirs_added (files w) (files w)" by (rule dirs_added_refl)
  next
    fix x v y v1
    assume "dirs_added (files w) (files v)" and "plan_subset tbl n x v = (y, v1)"
    then show "dirs_added (files w) (files v1)"
      using plan_subset_dirs_added dirs_added_trans by blast
  qed
  ultimately show ?thesis by simp
qed

lemma dry_run_only_adds_directories:
  assumes "main True yaml w = (r, w1)"
  shows "dirs_added (files w) (files w1)"
proof -
  have "w1 = w \<or> (\<exists>tbl n r2. plan_all tbl n w = (r2, w1))"
    using assms
    by (auto simp: main_def io_bind_def split: if_splits sum.splits prod.splits)
  then show ?thesis
    using plan_all_dirs_added dirs_added_refl by blast
qed

lemma dry_run_keeps_every_file:
  assumes "main True yaml w = (r, w1)"
  shows "(stat (files w1) p = Some (File c)) = (stat (files w) p = Some (File c))"
proof -
  from assms have "dirs_added (files w) (files w1)" by (rule dry_run_only_adds_directories)
  then have "stat (files w1) p = stat (files w) p
             \<or> (stat (files w) p = None \<and> stat (files w1) p = Some Dir)"
    by (simp add: dirs_added_def)
  then show ?thesis by auto
qed

lemma dirs_added_not_exists:
  assumes "dirs_added fs fs1" and "\<not> path_exists fs1 q"
  shows "\<not> path_exists fs q"
proof -
  from assms(1) have "stat fs1 q = stat fs q \<or> (stat fs q = None \<and> stat fs1 q = Some Dir)"
    by (simp add: dirs_added_def)
  with assms(2) show ?thesis by (auto simp: path_exists_def)
qed

lemma plan_image_destination_free:
  assumes "plan_image tbl n nid nld mid mld img w = (Inr op, w1)"
  shows "\<not> path_exists (files w) (dst_img op)"
proof -
  from assms have "dst_img op = mid @ [unique_name (files w) mid (fst (splitext img))
                                        (snd (splitext img)) (''new_'' @ img) 1]"
    by (rule plan_image_op)
  then show ?thesis
    using unique_name_least [of "files w" mid "fst (splitext img)" "snd (splitext img)"
        "''new_'' @ img" 1]
    by auto
qed

lemma plan_subset_destinations_free:
  assumes "plan_subset tbl n sub w = (Inr ops, w1)"
  shows "list_all (\<lambda>op. \<not> path_exists (files w) (dst_img op)) ops"
proof (cases "isdir (files w) [''new'', sub, ''images'']")
  case False
  with assms show ?thesis by (simp add: plan_subset_def)
next
  case True
  from assms True obtain u w2 u2 w3
    where e1: "on_fs (\<lambda>f. ensure_dir f [sub, ''images'']) w = (Inr u, w2)"
      and e2: "on_fs (\<lambda>f. ensure_dir f [sub, ''labels'']) w2 = (Inr u2, w3)"
      and f: "for_each
            (plan_image tbl n [''new'', sub, ''images''] [''new'', sub, ''labels'']
               [sub, ''images''] [sub, ''labels''])
            (list_files (files w3) [''new'', sub, ''images''] [''new'', sub, ''labels''])
            w3 = (Inr ops, w1)"
    by (auto simp: plan_subset_def io_bind_def split: sum.splits prod.splits)
  from e1 e2 have d: "dirs_added (files w) (files w3)"
    using ensure_dir_io dirs_added_trans by blast
  show ?thesis
  proof (rule for_each_results [where I = "\<lambda>v. files v = files w3", OF _ _ f])
    show "files w3 = files w3" by simp
  next
    fix x v y v1
    assume v: "files v = files w3"
      and p: "plan_image tbl n [''new'', sub, ''images''] [''new'', sub, ''labels'']
                [sub, ''images''] [sub, ''labels''] x v = (Inr y, v1)"
    from p have "files v1 = files v" by (rule plan_image_files)
    moreover from p have "\<not> path_exists (files v) (dst_img y)"
      by (rule plan_image_destination_free)
    ultimately show "files v1 = files w3 \<and> \<not> path_exists (files w) (dst_img y)"
      using v d dirs_added_not_exists by auto
  qed
qed

lemma planned_destinations_are_free:
  assumes "plan_all tbl n w = (Inr ops, w1)"
  shows "list_all (\<lambda>op. \<not> path_exists (files w) (dst_img op)) ops"
proof -
  from assms obtain opss
    where f: "for_each (plan_subset tbl n) [''train'', ''valid'', ''test''] w = (Inr opss, w1)"
      and ops: "ops = concat opss"
    by (auto simp: plan_all_def io_bind_def split: sum.splits prod.splits)
  have "list_all (list_all (\<lambda>op. \<not> path_exists (files w) (dst_img op))) opss"
  proof (rule for_each_results [where I = "\<lambda>v. dirs_added (files w) (files v)", OF _ _ f])
    show "dirs_added (files w) (files w)" by (rule dirs_added_refl)
  next
    fix x v y v1
    assume v: "dirs_added (files w) (files v)" and p: "plan_subset tbl n x v = (Inr y, v1)"
    from p have "dirs_added (files v) (files v1)" by (rule plan_subset_dirs_added)
    with v have "dirs_added (files w) (files v1)" by (rule dirs_added_trans)
    moreover from p have "list_all (\<lambda>op. \<not> path_exists (files v) (dst_img op)) y"
      by (rule plan_subset_destinations_free)
    then have "list_all (\<lambda>op. \<not> path_exists (files w) (dst_img op)) y"
      using v dirs_added_not_exists by (auto simp: list_all_iff)
    ultimately show "dirs_added (files w) (files v1)
        \<and> list_all (\<lambda>op. \<not> path_exists (files w) (dst_img op)) y"
      by simp
  qed
  with ops show ?thesis by (auto simp: list_all_iff)
qed

section \<open>What the planning loop guarantees\<close>

lemma remap_plan_drops_with_warning:
  "length (split_ws ln) < 5 \<Longrightarrow>
     remap_plan tbl n src (ln # lns) (remapped, out)
       = remap_plan tbl n src lns (remapped, out @ [Malformed_label src ln])"
  "5 \<le> length (split_ws ln) \<Longrightarrow> py_int (hd (split_ws ln)) = None \<Longrightarrow>
     remap_plan tbl n src (ln # lns) (remapped, out)
       = remap_plan tbl n src lns (remapped, out @ [Cannot_parse_class_id src ln])"
  by (simp_all add: Let_def)

lemma remap_plan_accounts_for_every_line:
  "remap_plan tbl n src lns (remapped, out) = (remapped1, out1)
   \<Longrightarrow> length remapped1 + length out1 = length remapped + length out + length lns"
proof (induction lns arbitrary: remapped out)
  case Nil
  then show ?case by simp
next
  case (Cons ln lns)
  show ?case
  proof (cases "length (split_ws ln) < 5")
    case True
    with Cons.prems
    have "remap_plan tbl n src lns (remapped, out @ [Malformed_label src ln]) = (remapped1, out1)"
      by (simp add: Let_def)
    from Cons.IH [OF this] show ?thesis by simp
  next
    case False
    show ?thesis
    proof (cases "py_int (hd (split_ws ln))")
      case None
      with False Cons.prems
      have "remap_plan tbl n src lns (remapped, out @ [Cannot_parse_class_id src ln])
            = (remapped1, out1)"
        by (simp add: Let_def)
      from Cons.IH [OF this] show ?thesis by simp
    next
      case (Some cid)
      let ?new = "case map_of tbl cid of Some m \<Rightarrow> Some m
                  | None \<Rightarrow> if cid < int n then Some cid else None"
      show ?thesis
      proof (cases ?new)
        case None
        with False Some Cons.prems
        have "remap_plan tbl n src lns (remapped, out @ [Cannot_map_class_id cid src])
              = (remapped1, out1)"
          by (simp add: Let_def)
        from Cons.IH [OF this] show ?thesis by simp
      next
        case (Some c)
        with False \<open>py_int (hd (split_ws ln)) = Some cid\<close> Cons.prems
        have "remap_plan tbl n src lns
                (remapped @ [join '' '' (str_int c # tl (split_ws ln))], out)
              = (remapped1, out1)"
          by (simp add: Let_def)
        from Cons.IH [OF this] show ?thesis by simp
      qed
    qed
  qed
qed

section \<open>The rewritten descriptor\<close>

lemma new_main_cfg_lookup:
  "map_of (new_main_cfg main_cfg merged_names) key =
     (if key = ''names'' then Some (names_value merged_names)
      else if key = ''nc'' then Some (YInt (int (length merged_names)))
      else map_of main_cfg key)"
  by (simp add: new_main_cfg_def update_conv')

lemma fallback_parse_keys:
  "fallback_parse d lines = Inr cfg \<Longrightarrow> fst ` set d \<subseteq> {''nc'', ''names''}
   \<Longrightarrow> fst ` set cfg \<subseteq> {''nc'', ''names''}"
proof (induction d lines rule: fallback_parse.induct)
  case (1 d)
  then show ?case by simp
next
  case (2 d line lines)
  have k: "fst ` set (AList.update key v d) \<subseteq> {''nc'', ''names''}"
    if "key = ''nc'' \<or> key = ''names''" for key v
    using that "2.prems"(2) by (auto simp: dom_update image_iff dest!: subsetD)
  show ?case
  proof (cases "startswith line ''nc:''")
    case True
    with "2.prems"(1) obtain n where n: "py_int (strip (after_colon line)) = Some n"
      and r: "fallback_parse (AList.update ''nc'' (YInt n) d) lines = Inr cfg"
      by (auto split: option.splits)
    from "2.IH"(1) [OF True n r] k show ?thesis by simp
  next
    case nc: False
    show ?thesis
    proof (cases "startswith line ''names:''")
      case False
      with nc "2.prems"(1) have "fallback_parse d lines = Inr cfg" by simp
      from "2.IH"(5) [OF nc False this] "2.prems"(2) show ?thesis by simp
    next
      case True
      let ?val = "strip (after_colon line)"
      let ?items = "strip (butlast (tl ?val))"
      show ?thesis
      proof (cases "startswith ?val ''['' \<and> endswith ?val '']''")
        case False
        with nc True "2.prems"(1) have "fallback_parse d lines = Inr cfg"
          by (simp add: Let_def)
        from "2.IH"(4) [OF nc True refl False this] "2.prems"(2) show ?thesis by simp
      next
        case br: True
        show ?thesis
        proof (cases "?items \<noteq> []")
          case True
          with nc \<open>startswith line ''names:''\<close> br "2.prems"(1)
          have r: "fallback_parse
                (AList.update ''names''
                   (YSeq (map (\<lambda>s. strip_chars [CHR 0x27, CHR 0x22] (strip s))
                            (split_on CHR '','' ?items))) d) lines = Inr cfg"
            by (simp add: Let_def)
          from "2.IH"(2) [OF nc \<open>startswith line ''names:''\<close> refl br refl True r] k
          show ?thesis by simp
        next
          case False
          with nc \<open>startswith line ''names:''\<close> br "2.prems"(1)
          have r: "fallback_parse (AList.update ''names'' (YSeq []) d) lines = Inr cfg"
            by (simp add: Let_def)
          from "2.IH"(3) [OF nc \<open>startswith line ''names:''\<close> refl br refl False r] k
          show ?thesis by simp
        qed
      qed
    qed
  qed
qed

lemma fallback_descriptor_has_no_path_fields:
  assumes "load_yaml None fs p = Inr main_cfg"
  shows "simple_writer main_cfg merged_names
         = [CHR 0x0A] @ ''nc: '' @ str_nat (length merged_names) @ [CHR 0x0A]
           @ ''names: ['' @ join '', '' (map (\<lambda>n. quoted (str_scalar n)) merged_names) @ '']''
           @ [CHR 0x0A]"
proof -
  from assms have "fst ` set main_cfg \<subseteq> {''nc'', ''names''}"
    by (auto simp: load_yaml_def split: sum.splits dest!: fallback_parse_keys)
  then have "map_of main_cfg key = None" if "key \<in> {''train'', ''val'', ''test''}" for key
    using that by (auto simp: map_of_eq_None_iff)
  then show ?thesis by (simp add: simple_writer_def)
qed

lemma remap_plan_ids_below_merged_count:
  assumes "list_all (\<lambda>e. snd e < int n) tbl"
    and "remap_plan tbl n src lns (remapped, out) = (remapped1, out1)"
  shows "\<exists>emitted. remapped1 = remapped @ emitted
           \<and> list_all (\<lambda>l. \<exists>c rest. l = join '' '' (str_int c # rest) \<and> c < int n) emitted"
  using assms(2)
proof (induction lns arbitrary: remapped out)
  case Nil
  then show ?case by simp
next
  case (Cons ln lns)
  let ?P = "\<lambda>l. \<exists>c rest. l = join '' '' (str_int c # rest) \<and> c < int n"
  have tbl: "m < int n" if "map_of tbl cid = Some m" for cid m
  proof -
    from that have "(cid, m) \<in> set tbl" by (rule map_of_SomeD)
    with assms(1) show ?thesis by (auto simp: list_all_iff)
  qed
  show ?case
  proof (cases "length (split_ws ln) < 5")
    case True
    with Cons.prems
    have "remap_plan tbl n src lns (remapped, out @ [Malformed_label src ln]) = (remapped1, out1)"
      by (simp add: Let_def)
    then show ?thesis by (rule Cons.IH)
  next
    case False
    show ?thesis
    proof (cases "py_int (hd (split_ws ln))")
      case None
      with False Cons.prems
      have "remap_plan tbl n src lns (remapped, out @ [Cannot_parse_class_id src ln])
            = (remapped1, out1)"
        by (simp add: Let_def)
      then show ?thesis by (rule Cons.IH)
    next
      case (Some cid)
      let ?new = "case map_of tbl cid of Some m \<Rightarrow> Some m
                  | None \<Rightarrow> if cid < int n then Some cid else None"
      show ?thesis
      proof (cases ?new)
        case None
        with False Some Cons.prems
        have "remap_plan tbl n src lns (remapped, out @ [Cannot_map_class_id cid src])
              = (remapped1, out1)"
          by (simp add: Let_def)
        then show ?thesis by (rule Cons.IH)
      next
        case new: (Some c)
        then have c: "c < int n"
          using tbl [of cid] by (auto split: option.splits if_splits)
        let ?l = "join '' '' (str_int c # tl (split_ws ln))"
        from new False Some Cons.prems
        have "remap_plan tbl n src lns (remapped @ [?l], out) = (remapped1, out1)"
          by (simp add: Let_def)
        from Cons.IH [OF this] obtain emitted
          where e: "remapped1 = (remapped @ [?l]) @ emitted" and p: "list_all ?P emitted"
          by blast
        from c have "?P ?l" by blast
        with p have "list_all ?P (?l # emitted)" by simp
        with e show ?thesis by (intro exI [of _ "?l # emitted"]) simp
      qed
    qed
  qed
qed

section \<open>Where the tool departs from its specification\<close>

text \<open>
  C1. A dry run is not free of file system changes: planning calls \<^verbatim>\<open>ensure_dir\<close> (lines
  130--131) before the mode is looked at (line 200). When the incoming dataset has a
  validation split and the main dataset has none, the dry run creates \<^verbatim>\<open>valid\<close>,
  \<^verbatim>\<open>valid/images\<close> and \<^verbatim>\<open>valid/labels\<close> in the main dataset.
\<close>

theorem dry_run_creates_directories:
  "main True None \<lparr>files = workspace_new_split, printed = []\<rparr>
     = (Inr 0,
        \<lparr>files = workspace_new_split
                   @ [([''valid''], Dir), ([''valid'', ''images''], Dir),
                      ([''valid'', ''labels''], Dir)],
         printed = []\<rparr>)
   \<and> stat workspace_new_split [''valid''] = None
   \<and> stat workspace_new_split [''valid'', ''images''] = None
   \<and> stat workspace_new_split [''valid'', ''labels''] = None"
  by code_simp

text \<open>
  C2. The loop of apply mode is not the loop of planning. For the incoming label line
  \<^verbatim>\<open>5 0.5 0.5 0.1 0.1\<close>, with three merged classes and no table entry for 5, planning
  drops the line with a warning, and apply mode writes it to the destination label file.
\<close>

theorem apply_writes_a_line_planning_dropped:
  "remap_plan [(0, 1), (1, 2)] 3 [''a.txt''] [''0 0.5 0.5 0.1 0.1'', ''5 0.5 0.5 0.1 0.1'']
       ([], [])
     = ([''1 0.5 0.5 0.1 0.1''], [Cannot_map_class_id 5 [''a.txt'']])
   \<and> remap_apply [(0, 1), (1, 2)] [''0 0.5 0.5 0.1 0.1'', ''5 0.5 0.5 0.1 0.1''] []
     = Inr [''1 0.5 0.5 0.1 0.1'', ''5 0.5 0.5 0.1 0.1'']
   \<and> main False None
        \<lparr>files = workspace (''0 0.5 0.5 0.1 0.1'' @ [CHR 0x0A] @ ''5 0.5 0.5 0.1 0.1'' @ [CHR 0x0A]),
         printed = []\<rparr>
     = (Inr 0,
        \<lparr>files =
           AList.update [''data.yaml'']
             (File ([CHR 0x0A] @ ''nc: 3'' @ [CHR 0x0A] @ ''names: ['' @ quoted ''cat'' @ '', ''
                    @ quoted ''dog'' @ '', '' @ quoted ''bird'' @ '']'' @ [CHR 0x0A]))
             (workspace (''0 0.5 0.5 0.1 0.1'' @ [CHR 0x0A] @ ''5 0.5 0.5 0.1 0.1'' @ [CHR 0x0A]))
           @ [([''data.yaml.bak''], File main_descriptor),
              ([''train'', ''images'', ''new_a.jpg''], File ''A''),
              ([''train'', ''labels'', ''new_a.txt''],
               File (''1 0.5 0.5 0.1 0.1'' @ [CHR 0x0A] @ ''5 0.5 0.5 0.1 0.1'' @ [CHR 0x0A]))],
         printed = [Cannot_map_class_id 5 [''new'', ''train'', ''labels'', ''a.txt'']]\<rparr>)"
  by code_simp

text \<open>
  C3. Class IDs outside the merged range reach the output. Planning keeps an ID without
  table entry when it is below the number of merged classes, and so keeps a negative one:
  the line \<^verbatim>\<open>-1 0.5 0.5 0.1 0.1\<close> is emitted unchanged, with no warning. Apply mode keeps
  every ID without table entry: with three merged classes it emits
  \<^verbatim>\<open>7 0.5 0.5 0.1 0.1\<close>.
\<close>

theorem class_id_outside_merged_range:
  "remap_plan [(0, 1), (1, 2)] 3 [''a.txt''] [''-1 0.5 0.5 0.1 0.1''] ([], [])
     = ([''-1 0.5 0.5 0.1 0.1''], [])
   \<and> remap_apply [(0, 1), (1, 2)] [''-1 0.5 0.5 0.1 0.1'', ''7 0.5 0.5 0.1 0.1''] []
     = Inr [''-1 0.5 0.5 0.1 0.1'', ''7 0.5 0.5 0.1 0.1'']
   \<and> py_int ''-1'' = Some (- 1) \<and> py_int ''7'' = Some 7
   \<and> map_of [(0, 1), (1, 2)] (- 1 :: int) = (None :: int option)
   \<and> map_of [(0, 1), (1, 2)] (7 :: int) = (None :: int option)"
  by code_simp

text \<open>
  C5. Two planned operations of one run can have the same destination. The resolver looks
  for a free name on disk only, and planning writes nothing: with \<^verbatim>\<open>new_a.jpg\<close> already
  in the main dataset, the incoming \<^verbatim>\<open>a.jpg\<close> and \<^verbatim>\<open>a_1.jpg\<close> are both planned to
  \<^verbatim>\<open>new_a_1.jpg\<close>, and after apply that file holds the second image only.
\<close>

theorem planned_destinations_collide:
  "fst (plan_all [(0, 1), (1, 2)] 3 \<lparr>files = workspace_collision, printed = []\<rparr>)
     = Inr [\<lparr>src_img = [''new'', ''train'', ''images'', ''a.jpg''],
              dst_img = [''train'', ''images'', ''new_a_1.jpg''],
              src_lbl = None, dst_lbl = None\<rparr>,
            \<lparr>src_img = [''new'', ''train'', ''images'', ''a_1.jpg''],
              dst_img = [''train'', ''images'', ''new_a_1.jpg''],
              src_lbl = None, dst_lbl = None\<rparr>]
   \<and> fst (main False None \<lparr>files = workspace_collision, printed = []\<rparr>) = Inr 0
   \<and> stat (files (snd (main False None \<lparr>files = workspace_collision, printed = []\<rparr>)))
        [''train'', ''images'', ''new_a_1.jpg''] = Some (File ''B'')
   \<and> listdir (files (snd (main False None \<lparr>files = workspace_collision, printed = []\<rparr>)))
        [''train'', ''images''] = [''new_a.jpg'', ''new_a_1.jpg'']"
  by code_simp

text \<open>
  C8. In apply mode a label line whose first token is not an integer ends the run: planning
  warns and goes on, then the loop of apply mode calls \<^verbatim>\<open>int\<close> with no handler (line 223)
  and the \<^verbatim>\<open>ValueError\<close> leaves the merge half done: the backup and the image are
  written, the label file and the descriptor are not. The same input passes a dry run.
  A line with fewer than five tokens is skipped by that loop with no message of its own.
\<close>

theorem apply_aborts_on_unparsable_class_id:
  "remap_apply [(0, 1), (1, 2)] [''abc 0.5 0.5 0.1 0.1'', ''0 0.5 0.5 0.1 0.1''] []
     = Inl ValueError
   \<and> remap_apply [(0, 1), (1, 2)] [''0 0.5 0.5'', ''0 0.5 0.5 0.1 0.1''] []
     = Inr [''1 0.5 0.5 0.1 0.1'']
   \<and> main True None
        \<lparr>files = workspace (''abc 0.5 0.5 0.1 0.1'' @ [CHR 0x0A] @ ''0 0.5 0.5 0.1 0.1'' @ [CHR 0x0A]),
         printed = []\<rparr>
     = (Inr 0,
        \<lparr>files = workspace (''abc 0.5 0.5 0.1 0.1'' @ [CHR 0x0A] @ ''0 0.5 0.5 0.1 0.1'' @ [CHR 0x0A]),
         printed = [Cannot_parse_class_id [''new'', ''train'', ''labels'', ''a.txt'']
                      ''abc 0.5 0.5 0.1 0.1'']\<rparr>)
   \<and> main False None
        \<lparr>files = workspace (''abc 0.5 0.5 0.1 0.1'' @ [CHR 0x0A] @ ''0 0.5 0.5 0.1 0.1'' @ [CHR 0x0A]),
         printed = []\<rparr>
     = (Inl ValueError,
        \<lparr>files = workspace (''abc 0.5 0.5 0.1 0.1'' @ [CHR 0x0A] @ ''0 0.5 0.5 0.1 0.1'' @ [CHR 0x0A])
                   @ [([''data.yaml.bak''], File main_descriptor),
                      ([''train'', ''images'', ''new_a.jpg''], File ''A'')],
         printed = [Cannot_parse_class_id [''new'', ''train'', ''labels'', ''a.txt'']
                      ''abc 0.5 0.5 0.1 0.1'']\<rparr>)"
  by code_simp

text \<open>
  C9. Without the YAML library the rewritten descriptor loses its other keys. The fallback
  parser keeps \<^verbatim>\<open>nc\<close> and \<^verbatim>\<open>names\<close> only, so the writer, which copies \<^verbatim>\<open>train\<close>,
  \<^verbatim>\<open>val\<close> and \<^verbatim>\<open>test\<close> from the parsed descriptor (lines 241--243), finds none of
  them: the path fields of the main descriptor are gone after apply.
\<close>

theorem fallback_writer_drops_path_fields:
  "read_text workspace_new_split [''data.yaml'']
     = Inr (''train: train/images'' @ [CHR 0x0A] @ ''val: valid/images'' @ [CHR 0x0A] @
            ''nc: 2'' @ [CHR 0x0A] @
            ''names: ['' @ quoted ''cat'' @ '', '' @ quoted ''dog'' @ '']'' @ [CHR 0x0A])
   \<and> load_yaml None workspace_new_split [''data.yaml'']
     = Inr [(''nc'', YInt 2), (''names'', YSeq [''cat'', ''dog''])]
   \<and> fst (main False None \<lparr>files = workspace_new_split, printed = []\<rparr>) = Inr 0
   \<and> read_text (files (snd (main False None \<lparr>files = workspace_new_split, printed = []\<rparr>)))
        [''data.yaml'']
     = Inr ([CHR 0x0A] @ ''nc: 3'' @ [CHR 0x0A] @
            ''names: ['' @ quoted ''cat'' @ '', '' @ quoted ''dog'' @ '', '' @ quoted ''bird''
            @ '']'' @ [CHR 0x0A])"
  by code_simp

text \<open>
  C10. With no descriptor in the incoming dataset the run does not fail: the incoming name
  list is empty, the merged taxonomy is the main taxonomy and the remap table is empty.
  Planning then applies the fallback rule: with the two main names cat and dog it keeps
  the line with class ID 1 and drops the line with class ID 2 with a warning. The loop of
  apply mode does not: it writes both lines, so the destination label file holds the class
  ID 2, which is not below the number of main names.
\<close>

theorem absent_descriptor_apply_keeps_unmapped_id:
  "isfile workspace_no_descriptor [''new'', ''data.yaml''] = False
   \<and> main True None \<lparr>files = workspace_no_descriptor, printed = []\<rparr>
     = (Inr 0,
        \<lparr>files = workspace_no_descriptor,
         printed = [Cannot_map_class_id 2 [''new'', ''train'', ''labels'', ''a.txt'']]\<rparr>)
   \<and> remap_plan [] 2 [''new'', ''train'', ''labels'', ''a.txt'']
        [''1 0.5 0.5 0.1 0.1'', ''2 0.5 0.5 0.1 0.1''] ([], [])
     = ([''1 0.5 0.5 0.1 0.1''],
        [Cannot_map_class_id 2 [''new'', ''train'', ''labels'', ''a.txt'']])
   \<and> remap_apply [] [''1 0.5 0.5 0.1 0.1'', ''2 0.5 0.5 0.1 0.1''] []
     = Inr [''1 0.5 0.5 0.1 0.1'', ''2 0.5 0.5 0.1 0.1'']
   \<and> main False None \<lparr>files = workspace_no_descriptor, printed = []\<rparr>
     = (Inr 0,
        \<lparr>files =
           AList.update [''data.yaml'']
             (File ([CHR 0x0A] @ ''nc: 2'' @ [CHR 0x0A] @ ''names: ['' @ quoted ''cat'' @ '', ''
                    @ quoted ''dog'' @ '']'' @ [CHR 0x0A]))
             workspace_no_descriptor
           @ [([''data.yaml.bak''], File main_descriptor),
              ([''train'', ''images'', ''new_a.jpg''], File ''A''),
              ([''train'', ''labels'', ''new_a.txt''],
               File (''1 0.5 0.5 0.1 0.1'' @ [CHR 0x0A] @ ''2 0.5 0.5 0.1 0.1'' @ [CHR 0x0A]))],
         printed = [Cannot_map_class_id 2 [''new'', ''train'', ''labels'', ''a.txt'']]\<rparr>)"
  by code_simp

end
